theory Spec2Isabelle
  imports Main "HOL-Library.Sublist"
begin

section \<open>Strings\<close>

text \<open>
  Error messages are modelled as \<open>string\<close> (a list of 8-bit characters), that is as
  ASCII text. \<open>String.prototype.toLowerCase\<close> is modelled on the letters A to Z; every
  other character is left as it is.
\<close>

definition lower_char :: "char \<Rightarrow> char" where
  "lower_char c =
     (case map_of (zip ''ABCDEFGHIJKLMNOPQRSTUVWXYZ'' ''abcdefghijklmnopqrstuvwxyz'') c of
        Some d \<Rightarrow> d
      | None \<Rightarrow> c)"

definition toLowerCase :: "string \<Rightarrow> string" where
  "toLowerCase s = map lower_char s"

text \<open>\<open>s.includes(t)\<close>: \<open>t\<close> occurs in \<open>s\<close> as a contiguous run of characters.\<close>

fun str_includes :: "string \<Rightarrow> string \<Rightarrow> bool" where
  "str_includes [] t = (t = [])"
| "str_includes (c # cs) t = (prefix t (c # cs) \<or> str_includes cs t)"

text \<open>The decimal digits of a number, as a template literal prints it.\<close>

fun digits :: "nat \<Rightarrow> string" where
  "digits n =
     (if n < 10 then [''0123456789'' ! n]
      else digits (n div 10) @ [''0123456789'' ! (n mod 10)])"

declare digits.simps [simp del]

section \<open>Failure classification\<close>

text \<open>
  A thrown value is a JavaScript \<open>Error\<close> carrying its message.
  \<open>error.message || String(error)\<close> reads the message, and for an empty message the
  text \<open>Error\<close> that \<open>String\<close> gives for such an object.
\<close>

datatype thrown = Error string

fun message :: "thrown \<Rightarrow> string" where
  "message (Error m) = m"

definition errorMsg_of :: "thrown \<Rightarrow> string" where
  "errorMsg_of e = (if message e = [] then ''Error'' else message e)"

datatype FailureType =
    VALIDATION_ERROR
  | SUBMISSION_ERROR
  | VERIFICATION_FAILED
  | TRANSACTION_ERROR
  | NETWORK_ERROR
  | UNKNOWN_ERROR

text \<open>\<open>isNonceConflictError\<close> of src/zkTransactionUtils.ts.\<close>

definition isNonceConflictError :: "thrown \<Rightarrow> bool" where
  "isNonceConflictError e =
     (let m = toLowerCase (message e) in
        str_includes m ''priority is too low'' \<or>
        str_includes m ''1014'' \<or>
        str_includes m ''transaction is already in the pool'' \<or>
        str_includes m ''invalid transaction'' \<or>
        str_includes m ''nonce'')"

text \<open>
  \<open>categorizeTransactionError\<close> of src/zkTransactionUtils.ts; the argument is
  \<open>None\<close> for a falsy \<open>error\<close>.
\<close>

definition categorizeTransactionError :: "thrown option \<Rightarrow> FailureType" where
  "categorizeTransactionError err =
     (case err of
        None \<Rightarrow> UNKNOWN_ERROR
      | Some e \<Rightarrow>
          (let lowerMessage = toLowerCase (errorMsg_of e) in
             if str_includes lowerMessage ''priority is too low'' \<or> str_includes lowerMessage ''1014''
             then TRANSACTION_ERROR
             else if str_includes lowerMessage ''invalid transaction''
             then TRANSACTION_ERROR
             else if str_includes lowerMessage ''insufficient balance'' \<or> str_includes lowerMessage ''payment''
             then TRANSACTION_ERROR
             else if str_includes lowerMessage ''network'' \<or> str_includes lowerMessage ''connection''
             then NETWORK_ERROR
             else if str_includes lowerMessage ''timeout''
             then NETWORK_ERROR
             else if str_includes lowerMessage ''proof'' \<or> str_includes lowerMessage ''verification''
             then VERIFICATION_FAILED
             else if str_includes lowerMessage ''missing'' \<or> str_includes lowerMessage ''invalid''
             then VALIDATION_ERROR
             else if str_includes lowerMessage ''submission'' \<or> str_includes lowerMessage ''session''
             then SUBMISSION_ERROR
             else UNKNOWN_ERROR))"

text \<open>
  \<open>categorizeError\<close> of src/utils/zkFailureLogger.ts, which labels the failure record
  that is logged.
\<close>

definition categorizeError :: "thrown \<Rightarrow> FailureType" where
  "categorizeError e =
     (let m = toLowerCase (message e) in
        if str_includes m ''missing'' \<or> str_includes m ''invalid'' then VALIDATION_ERROR
        else if str_includes m ''verification'' \<or> str_includes m ''proof'' then VERIFICATION_FAILED
        else if str_includes m ''transaction'' \<or> str_includes m ''balance'' then TRANSACTION_ERROR
        else if str_includes m ''network'' \<or> str_includes m ''timeout'' \<or> str_includes m ''connection''
        then NETWORK_ERROR
        else if str_includes m ''submission'' \<or> str_includes m ''session'' then SUBMISSION_ERROR
        else UNKNOWN_ERROR)"

text \<open>\<open>TransactionQueue.isNonceConflict\<close>: the queue's test for a retryable failure.\<close>

definition isNonceConflict :: "string \<Rightarrow> bool" where
  "isNonceConflict errorMessage =
     (str_includes errorMessage ''Priority is too low'' \<or>
      str_includes errorMessage ''1014'' \<or>
      str_includes errorMessage ''Transaction is already in the pool'' \<or>
      str_includes errorMessage ''Invalid Transaction'')"

section \<open>The transaction queue\<close>

subsection \<open>Data\<close>

datatype vk_type = Registered | Inline

record vk =
  vk_type :: vk_type
  vk_data :: string
  vk_hash :: "string option"

datatype network = Testnet | Mainnet

record QueueItem =
  qi_id :: string
  qi_proof :: string
  qi_publicSignals :: "string list"
  qi_vk :: vk
  qi_network :: network
  qi_timestamp :: nat
  qi_retryCount :: nat
  qi_maxRetries :: nat

datatype tx_status = Submitting | In_block | Finalizing

record ActiveTransactionInfo =
  at_id :: string
  at_txHash :: "string option"
  at_timestamp :: nat
  at_retryCount :: nat
  at_status :: tx_status

record QueueStatus =
  st_queueLength :: nat
  st_activeTransaction :: "ActiveTransactionInfo option"
  st_lastCompletedTimestamp :: "nat option"
  st_totalProcessed :: nat
  st_totalFailed :: nat

record QueueConfig =
  maxConcurrent :: nat
  retryAttempts :: nat
  retryDelay :: nat
  timeout :: nat

record TransactionResult =
  success :: bool
  txHash :: "string option"
  error :: "string option"
  explorerUrl :: "string option"

text \<open>
  Every call of \<open>emit\<close> is recorded, in order. \<open>E_completed_id i\<close> and
  \<open>E_failed_id i\<close> stand for the per-item events \<open>completed_<i>\<close> and
  \<open>failed_<i>\<close>.
\<close>

datatype emitted =
    E_enqueued string nat
  | E_processing string nat
  | E_completed_id string TransactionResult
  | E_completed string TransactionResult
  | E_retry string nat string
  | E_failed_id string thrown
  | E_failed string thrown
  | E_queueCleared nat bool
  | E_shutdownInitiated QueueStatus
  | E_shutdownComplete QueueStatus
  | E_paused
  | E_resumed

text \<open>
  The promise that \<open>submit\<close> returns, with what its executor sets up: the timer and
  the two \<open>once\<close> listeners. \<open>p_timeoutMs\<close> is the number given to \<open>setTimeout\<close>
  and printed in the timeout message, \<open>p_timerDelay\<close> the delay that the runtime sets
  the timer to. A promise settles at most once.
\<close>

datatype settlement = Pending | Resolved TransactionResult | Rejected thrown

record promise =
  p_id :: string
  p_state :: settlement
  p_timeoutMs :: nat
  p_timerDelay :: nat
  p_timerArmed :: bool
  p_onCompleted :: bool
  p_onFailed :: bool

text \<open>
  A running call of \<open>processQueue\<close> is suspended either at
  \<open>await this.executeTransaction(item)\<close> or at \<open>await this.delay(...)\<close>.
\<close>

datatype worker = Awaiting QueueItem | Delaying

record TransactionQueue =
  queue :: "QueueItem list"
  activeTransaction :: "ActiveTransactionInfo option"
  isProcessing :: bool
  isShuttingDown :: bool
  lastCompletedTimestamp :: "nat option"
  totalProcessed :: nat
  totalFailed :: nat
  config :: QueueConfig
  workers :: "worker list"
  promises :: "promise list"
  shutdowns :: "QueueStatus list"
  emitted :: "emitted list"

definition new_queue :: "QueueConfig \<Rightarrow> TransactionQueue" where
  "new_queue cfg =
     \<lparr>queue = [], activeTransaction = None, isProcessing = False, isShuttingDown = False,
      lastCompletedTimestamp = None, totalProcessed = 0, totalFailed = 0, config = cfg,
      workers = [], promises = [], shutdowns = [], emitted = []\<rparr>"

subsection \<open>Operations\<close>

definition getStatus :: "TransactionQueue \<Rightarrow> QueueStatus" where
  "getStatus s =
     \<lparr>st_queueLength = length (queue s),
      st_activeTransaction = activeTransaction s,
      st_lastCompletedTimestamp = lastCompletedTimestamp s,
      st_totalProcessed = totalProcessed s,
      st_totalFailed = totalFailed s\<rparr>"

definition clearQueue :: "TransactionQueue \<Rightarrow> (nat \<times> bool) \<times> TransactionQueue" where
  "clearQueue s =
     (let cleared = length (queue s);
          activeInterrupted = (activeTransaction s \<noteq> None)
      in ((cleared, activeInterrupted),
          s\<lparr>queue := [], emitted := emitted s @ [E_queueCleared cleared activeInterrupted]\<rparr>))"

text \<open>A promise settles once: a later \<open>resolve\<close> or \<open>reject\<close> changes nothing.\<close>

definition settle :: "settlement \<Rightarrow> settlement \<Rightarrow> settlement" where
  "settle new old = (case old of Pending \<Rightarrow> new | _ \<Rightarrow> old)"

text \<open>
  The listener on \<open>completed_<id>\<close>: it clears the timer and resolves. Registered
  with \<open>once\<close>, it is removed when it has run. Its call
  \<open>removeListener('failed_<id>', reject)\<close> names a function that was never registered
  (the listener is the arrow function around it), so the other listener stays.
\<close>

definition fire_completed :: "string \<Rightarrow> TransactionResult \<Rightarrow> promise \<Rightarrow> promise" where
  "fire_completed i r p =
     (if p_id p = i \<and> p_onCompleted p
      then p\<lparr>p_timerArmed := False, p_onCompleted := False,
             p_state := settle (Resolved r) (p_state p)\<rparr>
      else p)"

definition fire_failed :: "string \<Rightarrow> thrown \<Rightarrow> promise \<Rightarrow> promise" where
  "fire_failed i e p =
     (if p_id p = i \<and> p_onFailed p
      then p\<lparr>p_timerArmed := False, p_onFailed := False,
             p_state := settle (Rejected e) (p_state p)\<rparr>
      else p)"

definition removeAllListeners :: "promise \<Rightarrow> promise" where
  "removeAllListeners p = p\<lparr>p_onCompleted := False, p_onFailed := False\<rparr>"

text \<open>
  The head of the loop of \<open>processQueue\<close>: either the next item is shifted off the
  pending list and made active, or the loop ends and the \<open>finally\<close> block runs.
\<close>

definition loop_iter :: "TransactionQueue \<Rightarrow> QueueItem option \<times> TransactionQueue" where
  "loop_iter s =
     (case queue s of
        item # rest \<Rightarrow>
          if \<not> isShuttingDown s
          then (Some item,
                s\<lparr>queue := rest,
                  activeTransaction :=
                    Some \<lparr>at_id = qi_id item, at_txHash = None, at_timestamp = qi_timestamp item,
                          at_retryCount = qi_retryCount item, at_status = Submitting\<rparr>,
                  emitted := emitted s @ [E_processing (qi_id item) (length rest)]\<rparr>)
          else (None, s\<lparr>isProcessing := False, activeTransaction := None\<rparr>)
      | [] \<Rightarrow> (None, s\<lparr>isProcessing := False, activeTransaction := None\<rparr>))"

text \<open>A call of \<open>processQueue\<close>, up to its first \<open>await\<close>.\<close>

definition processQueue :: "TransactionQueue \<Rightarrow> TransactionQueue" where
  "processQueue s =
     (if isProcessing s \<or> queue s = [] \<or> isShuttingDown s then s
      else (case loop_iter (s\<lparr>isProcessing := True\<rparr>) of
              (Some item, s') \<Rightarrow> s'\<lparr>workers := workers s' @ [Awaiting item]\<rparr>
            | (None, s') \<Rightarrow> s'))"

text \<open>Worker \<open>w\<close> comes back to the head of its loop.\<close>

definition resume_loop :: "nat \<Rightarrow> TransactionQueue \<Rightarrow> TransactionQueue" where
  "resume_loop w s =
     (case loop_iter s of
        (Some item, s') \<Rightarrow> s'\<lparr>workers := (workers s')[w := Awaiting item]\<rparr>
      | (None, s') \<Rightarrow> s'\<lparr>workers := take w (workers s') @ drop (Suc w) (workers s')\<rparr>)"

definition mk_id :: "nat \<Rightarrow> string \<Rightarrow> string" where
  "mk_id now rnd = ''tx_'' @ digits now @ ''_'' @ rnd"

text \<open>\<open>timeout || this.config.timeout\<close>: an absent or zero override gives the default.\<close>

definition timeoutMs :: "nat option \<Rightarrow> QueueConfig \<Rightarrow> nat" where
  "timeoutMs tmo cfg =
     (case tmo of None \<Rightarrow> timeout cfg | Some t \<Rightarrow> if t = 0 then timeout cfg else t)"

text \<open>
  The delay of a timer of the runtime: \<open>setTimeout\<close> of Node.js takes a delay from 1
  to \<open>2^31 - 1\<close> milliseconds as it is, and sets any other to 1 millisecond.
\<close>

definition TIMEOUT_MAX :: nat where
  "TIMEOUT_MAX = 2147483647"

definition timer_delay :: "nat \<Rightarrow> nat" where
  "timer_delay ms = (if 1 \<le> ms \<and> ms \<le> TIMEOUT_MAX then ms else 1)"

definition shutting_down_error :: thrown where
  "shutting_down_error = Error ''Queue is shutting down, cannot accept new submissions''"

text \<open>
  \<open>submit\<close>, up to the promise it returns: \<open>Inl\<close> is the error thrown, \<open>Inr k\<close> the
  position of the new promise. \<open>now\<close> is the reading of \<open>Date.now()\<close> and \<open>rnd\<close>
  the random suffix of the identifier.
\<close>

definition submit ::
  "string \<Rightarrow> string list \<Rightarrow> vk \<Rightarrow> network \<Rightarrow> nat option \<Rightarrow> nat \<Rightarrow> string \<Rightarrow>
   TransactionQueue \<Rightarrow> (thrown + nat) \<times> TransactionQueue" where
  "submit prf publicSignals v net tmo now rnd s =
     (if isShuttingDown s then (Inl shutting_down_error, s)
      else
        (let i = mk_id now rnd;
             item = \<lparr>qi_id = i, qi_proof = prf, qi_publicSignals = publicSignals, qi_vk = v,
                     qi_network = net, qi_timestamp = now, qi_retryCount = 0,
                     qi_maxRetries = retryAttempts (config s)\<rparr>;
             s1 = s\<lparr>queue := queue s @ [item],
                    emitted := emitted s @ [E_enqueued i (length (queue s) + 1)]\<rparr>;
             s2 = processQueue s1;
             p = \<lparr>p_id = i, p_state = Pending, p_timeoutMs = timeoutMs tmo (config s),
                  p_timerDelay = timer_delay (timeoutMs tmo (config s)),
                  p_timerArmed = True, p_onCompleted = True, p_onFailed = True\<rparr>
         in (Inr (length (promises s2)), s2\<lparr>promises := promises s2 @ [p]\<rparr>)))"

text \<open>\<open>Array.prototype.findIndex\<close>, with \<open>None\<close> for \<open>-1\<close>.\<close>

fun findIndex :: "('a \<Rightarrow> bool) \<Rightarrow> 'a list \<Rightarrow> nat option" where
  "findIndex P [] = None"
| "findIndex P (x # xs) = (if P x then Some 0 else map_option Suc (findIndex P xs))"

text \<open>
  The text that a template literal prints for a number is the runtime's: it is given
  with the event. Below \<open>10^21\<close> it is the decimal digits of the number; from there on
  the runtime prints an exponent, which is not modelled, and any text is admitted. An
  expiry given with a text that the runtime would not print does not occur: it changes
  nothing.
\<close>

definition printed :: "nat \<Rightarrow> string \<Rightarrow> bool" where
  "printed n txt = (10 ^ 21 \<le> n \<or> txt = digits n)"

definition timeout_error :: "string \<Rightarrow> thrown" where
  "timeout_error txt = Error (''Transaction timeout after '' @ txt @ ''ms'')"

text \<open>
  The timer of promise \<open>k\<close> expires (the callback given to \<open>setTimeout\<close>); \<open>txt\<close>
  is what the runtime prints for \<open>timeout || this.config.timeout\<close>.
\<close>

definition timer_fires :: "nat \<Rightarrow> string \<Rightarrow> TransactionQueue \<Rightarrow> TransactionQueue" where
  "timer_fires k txt s =
     (if k < length (promises s) \<and> p_timerArmed (promises s ! k) \<and>
         printed (p_timeoutMs (promises s ! k)) txt
      then
        (let p = (promises s ! k)\<lparr>p_timerArmed := False\<rparr> in
           case findIndex (\<lambda>i. qi_id i = p_id p) (queue s) of
             None \<Rightarrow> s\<lparr>promises := (promises s)[k := p]\<rparr>
           | Some index \<Rightarrow>
               s\<lparr>queue := take index (queue s) @ drop (Suc index) (queue s),
                 promises := (promises s)
                   [k := p\<lparr>p_state := settle (Rejected (timeout_error txt)) (p_state p)\<rparr>]\<rparr>)
      else s)"

text \<open>The attempt that worker \<open>w\<close> awaits succeeds with \<open>result\<close>.\<close>

definition attempt_resolves :: "nat \<Rightarrow> TransactionResult \<Rightarrow> nat \<Rightarrow> TransactionQueue \<Rightarrow> TransactionQueue" where
  "attempt_resolves w result now s =
     (if w < length (workers s)
      then (case workers s ! w of
              Awaiting item \<Rightarrow>
                resume_loop w
                  (s\<lparr>lastCompletedTimestamp := Some now,
                     totalProcessed := totalProcessed s + 1,
                     activeTransaction := None,
                     promises := map (fire_completed (qi_id item) result) (promises s),
                     emitted := emitted s @
                       [E_completed_id (qi_id item) result, E_completed (qi_id item) result]\<rparr>)
            | Delaying \<Rightarrow> s)
      else s)"

text \<open>The attempt that worker \<open>w\<close> awaits fails with \<open>err\<close>: the \<open>catch\<close> block.\<close>

definition attempt_rejects :: "nat \<Rightarrow> thrown \<Rightarrow> TransactionQueue \<Rightarrow> TransactionQueue" where
  "attempt_rejects w err s =
     (if w < length (workers s)
      then (case workers s ! w of
              Awaiting item \<Rightarrow>
                (let errorMsg = errorMsg_of err in
                   if isNonceConflict errorMsg \<and> qi_retryCount item < qi_maxRetries item
                   then
                     (let item' = item\<lparr>qi_retryCount := qi_retryCount item + 1\<rparr> in
                        s\<lparr>queue := item' # queue s,
                          activeTransaction := None,
                          emitted := emitted s @ [E_retry (qi_id item') (qi_retryCount item') errorMsg],
                          workers := (workers s)[w := Delaying]\<rparr>)
                   else
                     resume_loop w
                       (s\<lparr>activeTransaction := None,
                          totalFailed := totalFailed s + 1,
                          promises := map (fire_failed (qi_id item) err) (promises s),
                          emitted := emitted s @
                            [E_failed_id (qi_id item) err, E_failed (qi_id item) err]\<rparr>))
            | Delaying \<Rightarrow> s)
      else s)"

text \<open>The inter-retry delay of worker \<open>w\<close> is over.\<close>

definition delay_elapses :: "nat \<Rightarrow> TransactionQueue \<Rightarrow> TransactionQueue" where
  "delay_elapses w s =
     (if w < length (workers s)
      then (case workers s ! w of Delaying \<Rightarrow> resume_loop w s | Awaiting item \<Rightarrow> s)
      else s)"

text \<open>
  \<open>shutdown\<close>: the part after the wait, and the call up to its first \<open>await\<close>. A call
  that finds \<open>isProcessing\<close> set waits in \<open>shutdowns\<close> and looks again each time it wakes.
\<close>

definition shutdown_finish :: "QueueStatus \<Rightarrow> TransactionQueue \<Rightarrow> TransactionQueue" where
  "shutdown_finish status s =
     s\<lparr>promises := map removeAllListeners (promises s),
       emitted := emitted s @ [E_shutdownComplete status]\<rparr>"

definition shutdown :: "TransactionQueue \<Rightarrow> TransactionQueue" where
  "shutdown s =
     (let s1 = s\<lparr>isShuttingDown := True\<rparr>;
          status = getStatus s1;
          s2 = s1\<lparr>emitted := emitted s1 @ [E_shutdownInitiated status]\<rparr>
      in if isProcessing s2 then s2\<lparr>shutdowns := shutdowns s2 @ [status]\<rparr>
         else shutdown_finish status s2)"

definition shutdown_wakes :: "nat \<Rightarrow> TransactionQueue \<Rightarrow> TransactionQueue" where
  "shutdown_wakes k s =
     (if k < length (shutdowns s) \<and> \<not> isProcessing s
      then shutdown_finish (shutdowns s ! k)
             (s\<lparr>shutdowns := take k (shutdowns s) @ drop (Suc k) (shutdowns s)\<rparr>)
      else s)"

definition pause :: "TransactionQueue \<Rightarrow> TransactionQueue" where
  "pause s = s\<lparr>isProcessing := False, emitted := emitted s @ [E_paused]\<rparr>"

definition resume :: "TransactionQueue \<Rightarrow> TransactionQueue" where
  "resume s =
     (if \<not> isProcessing s \<and> \<not> isShuttingDown s
      then processQueue (s\<lparr>emitted := emitted s @ [E_resumed]\<rparr>)
      else s)"

subsection \<open>Runs\<close>

text \<open>
  What can happen to a queue: a call of one of its methods, or the end of something it is
  waiting for (an attempt, a delay, a timer).
\<close>

datatype event =
    Submit string "string list" vk network "nat option" nat string
  | AttemptResolves nat TransactionResult nat
  | AttemptRejects nat thrown
  | DelayElapses nat
  | TimerFires nat string
  | ClearQueue
  | Shutdown
  | ShutdownWakes nat
  | Pause
  | Resume

fun step :: "event \<Rightarrow> TransactionQueue \<Rightarrow> TransactionQueue" where
  "step (Submit prf sigs v net tmo now rnd) s = snd (submit prf sigs v net tmo now rnd s)"
| "step (AttemptResolves w r now) s = attempt_resolves w r now s"
| "step (AttemptRejects w e) s = attempt_rejects w e s"
| "step (DelayElapses w) s = delay_elapses w s"
| "step (TimerFires k txt) s = timer_fires k txt s"
| "step ClearQueue s = snd (clearQueue s)"
| "step Shutdown s = shutdown s"
| "step (ShutdownWakes k) s = shutdown_wakes k s"
| "step Pause s = pause s"
| "step Resume s = resume s"

fun run :: "event list \<Rightarrow> TransactionQueue \<Rightarrow> TransactionQueue" where
  "run [] s = s"
| "run (e # es) s = run es (step e s)"

section \<open>The server around the queue\<close>

text \<open>
  The state of server.ts that the reconnection logic and the request handler read:
  the session (absent, or present with its provider connected or not), the
  reconnection flag and counter, and the queue once it is constructed.
\<close>

record session =
  isConnected :: bool

record server =
  zkSession :: "session option"
  isReconnecting :: bool
  reconnectionAttempts :: nat
  transactionQueue :: "TransactionQueue option"

definition MAX_RECONNECTION_ATTEMPTS :: nat where
  "MAX_RECONNECTION_ATTEMPTS = 10"

definition BASE_RECONNECT_DELAY :: nat where
  "BASE_RECONNECT_DELAY = 1000"

text \<open>
  \<open>attemptReconnection\<close> up to the wait before the handshake. The delay is a whole
  number of milliseconds: the counter is at least 1 when the power is taken.
\<close>

datatype reconnection = Skipped | GaveUp | Waits nat

definition attemptReconnection :: "server \<Rightarrow> reconnection \<times> server" where
  "attemptReconnection srv =
     (if isReconnecting srv then (Skipped, srv)
      else if reconnectionAttempts srv \<ge> MAX_RECONNECTION_ATTEMPTS then (GaveUp, srv)
      else
        (let srv1 = srv\<lparr>isReconnecting := True,
                        reconnectionAttempts := reconnectionAttempts srv + 1\<rparr>;
             delay = min (BASE_RECONNECT_DELAY * 2 ^ (reconnectionAttempts srv1 - 1)) 30000
         in (Waits delay, srv1)))"

text \<open>After the wait: the handshake succeeds with a session, or throws.\<close>

definition reconnection_succeeds :: "session \<Rightarrow> server \<Rightarrow> server" where
  "reconnection_succeeds sess srv =
     srv\<lparr>zkSession := Some sess, reconnectionAttempts := 0, isReconnecting := False\<rparr>"

definition reconnection_fails :: "server \<Rightarrow> server" where
  "reconnection_fails srv = srv\<lparr>isReconnecting := False\<rparr>"

text \<open>
  A reconnection sequence: each failed handshake schedules the next call of
  \<open>attemptReconnection\<close>. The argument lists the outcomes of the successive handshakes
  (\<open>None\<close> for one that throws); the result lists the delays waited for.
\<close>

fun reconnect :: "session option list \<Rightarrow> server \<Rightarrow> nat list \<times> server" where
  "reconnect [] srv = ([], srv)"
| "reconnect (r # rs) srv =
     (case attemptReconnection srv of
        (Waits d, srv1) \<Rightarrow>
          (case r of
             Some sess \<Rightarrow> ([d], reconnection_succeeds sess srv1)
           | None \<Rightarrow>
               (case reconnect rs (reconnection_fails srv1) of
                  (ds, srv2) \<Rightarrow> (d # ds, srv2)))
      | (Skipped, srv1) \<Rightarrow> ([], srv1)
      | (GaveUp, srv1) \<Rightarrow> ([], srv1))"

text \<open>The handler of the provider's \<open>disconnected\<close> event.\<close>

definition on_disconnected :: "server \<Rightarrow> reconnection \<times> server" where
  "on_disconnected srv = attemptReconnection (srv\<lparr>zkSession := None\<rparr>)"

definition connected :: "server \<Rightarrow> bool" where
  "connected srv = (case zkSession srv of None \<Rightarrow> False | Some sess \<Rightarrow> isConnected sess)"

definition session_unavailable :: thrown where
  "session_unavailable = Error ''zkVerify session not available''"

text \<open>
  \<open>submitProofTransaction\<close>, the submitter given to the queue: it throws when the
  session is absent or not connected, and otherwise ends as the remote call does.
\<close>

definition submitProofTransaction ::
  "server \<Rightarrow> thrown + TransactionResult \<Rightarrow> thrown + TransactionResult" where
  "submitProofTransaction srv remote =
     (if \<not> connected srv then Inl session_unavailable else remote)"

definition validateProofAndSignals :: "string \<Rightarrow> string list \<Rightarrow> string option" where
  "validateProofAndSignals prf publicSignals =
     (if prf = [] then Some ''Proof is required''
      else if publicSignals = [] then Some ''Public signals array is empty''
      else None)"

text \<open>
  A reply of the handler: status and error text, and for the reply sent while
  reconnecting the number of milliseconds that \<open>retryAfter\<close> is computed from.
\<close>

datatype reply = Reply nat string | ReplyRetryAfter nat string nat

definition retryAfterMs :: "nat \<Rightarrow> nat" where
  "retryAfterMs attempts =
     (if attempts = 0 then min (BASE_RECONNECT_DELAY div 2) 30000
      else min (BASE_RECONNECT_DELAY * 2 ^ (attempts - 1)) 30000)"

definition error_reply :: "thrown \<Rightarrow> reply" where
  "error_reply e =
     (let errorType = categorizeTransactionError (Some e) in
        if errorType = TRANSACTION_ERROR \<or> errorType = NETWORK_ERROR
        then Reply 503 (message e)
        else Reply 500 (message e))"

text \<open>
  The handler of POST /verify-score, from the validation of the body to the call of
  \<open>submit\<close>: \<open>Inl\<close> is the reply sent at once, \<open>Inr k\<close> the promise awaited.
\<close>

definition verify_score ::
  "string \<Rightarrow> string list \<Rightarrow> vk \<Rightarrow> network \<Rightarrow> nat \<Rightarrow> string \<Rightarrow> server \<Rightarrow> (reply + nat) \<times> server" where
  "verify_score prf publicSignals cachedVK net now rnd srv =
     (case validateProofAndSignals prf publicSignals of
        Some err \<Rightarrow> (Inl (Reply 400 err), srv)
      | None \<Rightarrow>
          (case transactionQueue srv of
             None \<Rightarrow>
               (Inl (Reply 503 ''Service unavailable - transaction queue not initialized''), srv)
           | Some q \<Rightarrow>
               if \<not> connected srv
               then
                 (if isReconnecting srv
                  then (Inl (ReplyRetryAfter 503
                               ''Service temporarily unavailable - reconnecting to zkVerify''
                               (retryAfterMs (reconnectionAttempts srv))), srv)
                  else (Inl (Reply 503 ''Service unavailable - zkVerify session not initialized''),
                        srv))
               else
                 (case submit prf publicSignals cachedVK net None now rnd q of
                    (Inl e, q') \<Rightarrow> (Inl (error_reply e), srv\<lparr>transactionQueue := Some q'\<rparr>)
                  | (Inr k, q') \<Rightarrow> (Inr k, srv\<lparr>transactionQueue := Some q'\<rparr>))))"

section \<open>Observations on states and runs\<close>

text \<open>
  The tests of \<open>categorizeTransactionError\<close>, rule by rule, as predicates on the
  lower-cased message: the three tests that give \<open>TRANSACTION_ERROR\<close>, the two that
  give \<open>NETWORK_ERROR\<close>, and those that follow.
\<close>

definition lowerMessage_of :: "thrown \<Rightarrow> string" where
  "lowerMessage_of e = toLowerCase (errorMsg_of e)"

definition matches_transaction_rule :: "string \<Rightarrow> bool" where
  "matches_transaction_rule m =
     (str_includes m ''priority is too low'' \<or> str_includes m ''1014'' \<or>
      str_includes m ''invalid transaction'' \<or>
      str_includes m ''insufficient balance'' \<or> str_includes m ''payment'')"

definition matches_network_rule :: "string \<Rightarrow> bool" where
  "matches_network_rule m =
     (str_includes m ''network'' \<or> str_includes m ''connection'' \<or>
      str_includes m ''timeout'')"

definition matches_earlier_rule :: "string \<Rightarrow> bool" where
  "matches_earlier_rule m = (matches_transaction_rule m \<or> matches_network_rule m)"

definition matches_verification_rule :: "string \<Rightarrow> bool" where
  "matches_verification_rule m = (str_includes m ''proof'' \<or> str_includes m ''verification'')"

definition matches_validation_rule :: "string \<Rightarrow> bool" where
  "matches_validation_rule m = (str_includes m ''missing'' \<or> str_includes m ''invalid'')"

definition matches_submission_rule :: "string \<Rightarrow> bool" where
  "matches_submission_rule m = (str_includes m ''submission'' \<or> str_includes m ''session'')"

text \<open>The items whose attempt is in flight.\<close>

fun worker_items :: "worker \<Rightarrow> QueueItem list" where
  "worker_items (Awaiting item) = [item]"
| "worker_items Delaying = []"

definition inflight :: "worker list \<Rightarrow> QueueItem list" where
  "inflight ws = concat (map worker_items ws)"

text \<open>
  Read off the log: the identifiers in the order of their \<open>enqueued\<close> events, and in
  the order of their \<open>completed\<close> or \<open>failed\<close> events.
\<close>

fun terminal_id :: "emitted \<Rightarrow> string list" where
  "terminal_id (E_completed i r) = [i]"
| "terminal_id (E_failed i e) = [i]"
| "terminal_id _ = []"

definition terminal_ids :: "emitted list \<Rightarrow> string list" where
  "terminal_ids log = concat (map terminal_id log)"

fun enqueued_id :: "emitted \<Rightarrow> string list" where
  "enqueued_id (E_enqueued i n) = [i]"
| "enqueued_id _ = []"

definition enqueued_ids :: "emitted list \<Rightarrow> string list" where
  "enqueued_ids log = concat (map enqueued_id log)"

text \<open>
  The invariant of a queue that is never paused: one worker at most, which exists only
  while \<open>isProcessing\<close> is set, and the items finished, in flight and pending, in this
  order, follow the order of submission.
\<close>

definition serial :: "TransactionQueue \<Rightarrow> bool" where
  "serial s =
     (length (workers s) \<le> 1 \<and> (workers s \<noteq> [] \<longrightarrow> isProcessing s) \<and>
      subseq (terminal_ids (emitted s) @ map qi_id (inflight (workers s)) @ map qi_id (queue s))
        (enqueued_ids (emitted s)))"

text \<open>The identifiers that the submissions of a run create.\<close>

fun event_ids :: "event \<Rightarrow> string list" where
  "event_ids (Submit prf sigs v net tmo now rnd) = [mk_id now rnd]"
| "event_ids _ = []"

definition submit_ids :: "event list \<Rightarrow> string list" where
  "submit_ids es = concat (map event_ids es)"

text \<open>The events that tell the outcome of item \<open>i\<close>.\<close>

fun settles :: "string \<Rightarrow> emitted \<Rightarrow> bool" where
  "settles i (E_completed_id j r) = (i = j)"
| "settles i (E_completed j r) = (i = j)"
| "settles i (E_failed_id j e) = (i = j)"
| "settles i (E_failed j e) = (i = j)"
| "settles i _ = False"

text \<open>The identifiers of the items that are pending or in flight.\<close>

definition live_ids :: "TransactionQueue \<Rightarrow> string set" where
  "live_ids s = qi_id ` set (queue s) \<union> qi_id ` set (inflight (workers s))"

text \<open>
  Between \<open>s\<close> and \<open>t\<close> promise \<open>k\<close>, which is for item \<open>i\<close>, has kept its state,
  and no event has told an outcome of \<open>i\<close>.
\<close>

definition kept :: "string \<Rightarrow> nat \<Rightarrow> TransactionQueue \<Rightarrow> TransactionQueue \<Rightarrow> bool" where
  "kept i k s t =
     (k < length (promises t) \<and> p_id (promises t ! k) = i \<and>
      p_state (promises t ! k) = p_state (promises s ! k) \<and>
      filter (settles i) (emitted t) = filter (settles i) (emitted s))"

text \<open>The item that \<open>submit\<close> creates.\<close>

definition submitted_item ::
  "string \<Rightarrow> string list \<Rightarrow> vk \<Rightarrow> network \<Rightarrow> nat \<Rightarrow> string \<Rightarrow> QueueConfig \<Rightarrow> QueueItem" where
  "submitted_item prf sigs v net now rnd cfg =
     \<lparr>qi_id = mk_id now rnd, qi_proof = prf, qi_publicSignals = sigs, qi_vk = v,
      qi_network = net, qi_timestamp = now, qi_retryCount = 0,
      qi_maxRetries = retryAttempts cfg\<rparr>"

text \<open>
  \<open>n\<close> rounds in which the only worker's attempt fails with \<open>e\<close> and the delay that
  follows a retry elapses.
\<close>

definition retry_rounds :: "nat \<Rightarrow> thrown \<Rightarrow> event list" where
  "retry_rounds n e = concat (replicate n [AttemptRejects 0 e, DelayElapses 0])"

fun reply_status :: "reply \<Rightarrow> nat" where
  "reply_status (Reply st msg) = st"
| "reply_status (ReplyRetryAfter st msg ms) = st"

section \<open>Example inputs\<close>

text \<open>The configuration and the values of src/src/__tests__/zkTransactionQueue.test.ts.\<close>

definition test_vk :: vk where
  "test_vk = \<lparr>vk_type = Registered, vk_data = ''vk-hash'', vk_hash = Some ''vk-hash''\<rparr>"

definition test_config :: QueueConfig where
  "test_config = \<lparr>maxConcurrent = 1, retryAttempts = 3, retryDelay = 100, timeout = 5000\<rparr>"

definition test_result :: TransactionResult where
  "test_result = \<lparr>success = True, txHash = Some ''0x123'', error = None, explorerUrl = None\<rparr>"

definition insufficient_funds :: thrown where
  "insufficient_funds = Error ''Invalid Transaction: insufficient funds''"

definition priority_too_low :: thrown where
  "priority_too_low = Error ''Priority is too low''"

definition stale_nonce :: thrown where
  "stale_nonce = Error ''Stale nonce detected''"

text \<open>One item is submitted and its first attempt fails for lack of funds.\<close>

definition insufficient_funds_run :: TransactionQueue where
  "insufficient_funds_run =
     run [Submit ''proof'' [''signal''] test_vk Testnet None 7 ''abc'',
          AttemptRejects 0 insufficient_funds] (new_queue test_config)"

text \<open>A server with no session, and a queue just constructed.\<close>

definition srv0 :: server where
  "srv0 = \<lparr>zkSession = None, isReconnecting = False, reconnectionAttempts = 0,
            transactionQueue = Some (new_queue test_config)\<rparr>"

text \<open>One item submitted to a new queue: it is in flight.\<close>

definition first_item :: QueueItem where
  "first_item =
     \<lparr>qi_id = ''tx_1_a'', qi_proof = ''proof'', qi_publicSignals = [''signal''], qi_vk = test_vk,
      qi_network = Testnet, qi_timestamp = 1, qi_retryCount = 0, qi_maxRetries = 3\<rparr>"

definition one_submitted :: TransactionQueue where
  "one_submitted =
     step (Submit ''proof'' [''signal''] test_vk Testnet None 1 ''a'') (new_queue test_config)"

text \<open>Four items submitted: the first is in flight, three are pending.\<close>

definition busy_queue :: TransactionQueue where
  "busy_queue =
     run [Submit ''proof'' [''signal''] test_vk Testnet None 1 ''a'',
          Submit ''proof'' [''signal''] test_vk Testnet None 2 ''b'',
          Submit ''proof'' [''signal''] test_vk Testnet None 3 ''c'',
          Submit ''proof'' [''signal''] test_vk Testnet None 4 ''d''] (new_queue test_config)"

text \<open>
  Three submissions; the first item is retried once and succeeds, the second fails, the
  third is left in flight.
\<close>

definition retry_run_events :: "event list" where
  "retry_run_events =
     [Submit ''proof'' [''signal''] test_vk Testnet None 1 ''a'',
      Submit ''proof'' [''signal''] test_vk Testnet None 2 ''b'',
      AttemptRejects 0 (Error ''Priority is too low''),
      Submit ''proof'' [''signal''] test_vk Testnet None 3 ''c'',
      DelayElapses 0,
      AttemptResolves 0 test_result 9,
      AttemptRejects 0 (Error ''Test error'')]"

text \<open>Two submissions, then \<open>pause\<close> and \<open>resume\<close> while the first attempt is in flight.\<close>

definition paused_and_resumed :: TransactionQueue where
  "paused_and_resumed =
     run [Submit ''proof'' [''signal''] test_vk Testnet None 1 ''a'',
          Submit ''proof'' [''signal''] test_vk Testnet None 2 ''b'',
          Pause, Resume] (new_queue test_config)"

section \<open>Properties of the failure classification\<close>

lemmas str_defs = toLowerCase_def lower_char_def errorMsg_of_def

lemmas queue_defs =
  submit_def processQueue_def loop_iter_def resume_loop_def attempt_resolves_def
  attempt_rejects_def delay_elapses_def timer_fires_def clearQueue_def shutdown_def
  shutdown_finish_def shutdown_wakes_def pause_def resume_def getStatus_def new_queue_def
  fire_completed_def fire_failed_def settle_def removeAllListeners_def timeoutMs_def
  timer_delay_def TIMEOUT_MAX_def printed_def

lemmas rule_defs =
  lowerMessage_of_def matches_transaction_rule_def matches_network_rule_def
  matches_earlier_rule_def matches_verification_rule_def matches_validation_rule_def
  matches_submission_rule_def

text \<open>
  C6. In \<open>categorizeTransactionError\<close> the first matching rule wins. A message that
  one of the nonce-conflict, invalid-transaction or balance and payment tests matches is
  \<open>TRANSACTION_ERROR\<close>, and one that none of them but a network, connection or timeout
  test matches is \<open>NETWORK_ERROR\<close>, whatever else they contain. The answer is
  \<open>VERIFICATION_FAILED\<close> exactly for the messages with \<open>proof\<close> or
  \<open>verification\<close> that none of these earlier rules matched, also when they contain
  \<open>missing\<close> or \<open>invalid\<close>; it is \<open>VALIDATION_ERROR\<close> exactly for the messages
  with \<open>missing\<close> or \<open>invalid\<close> that no earlier rule and neither \<open>proof\<close> nor
  \<open>verification\<close> matched; and likewise for the two rules after it.
\<close>

theorem verification_rule_before_validation_rule:
  "(matches_transaction_rule (lowerMessage_of e) \<longrightarrow>
      categorizeTransactionError (Some e) = TRANSACTION_ERROR) \<and>
   (\<not> matches_transaction_rule (lowerMessage_of e) \<and> matches_network_rule (lowerMessage_of e) \<longrightarrow>
      categorizeTransactionError (Some e) = NETWORK_ERROR) \<and>
   (categorizeTransactionError (Some e) = VERIFICATION_FAILED \<longleftrightarrow>
      \<not> matches_earlier_rule (lowerMessage_of e) \<and>
      matches_verification_rule (lowerMessage_of e)) \<and>
   (categorizeTransactionError (Some e) = VALIDATION_ERROR \<longleftrightarrow>
      \<not> matches_earlier_rule (lowerMessage_of e) \<and>
      \<not> matches_verification_rule (lowerMessage_of e) \<and>
      matches_validation_rule (lowerMessage_of e)) \<and>
   (categorizeTransactionError (Some e) = SUBMISSION_ERROR \<longleftrightarrow>
      \<not> matches_earlier_rule (lowerMessage_of e) \<and>
      \<not> matches_verification_rule (lowerMessage_of e) \<and>
      \<not> matches_validation_rule (lowerMessage_of e) \<and>
      matches_submission_rule (lowerMessage_of e)) \<and>
   (categorizeTransactionError (Some e) = UNKNOWN_ERROR \<longleftrightarrow>
      \<not> matches_earlier_rule (lowerMessage_of e) \<and>
      \<not> matches_verification_rule (lowerMessage_of e) \<and>
      \<not> matches_validation_rule (lowerMessage_of e) \<and>
      \<not> matches_submission_rule (lowerMessage_of e))"
  by (simp add: categorizeTransactionError_def rule_defs Let_def)

theorem verification_rule_before_validation_rule_witness:
  "\<not> matches_earlier_rule (lowerMessage_of (Error ''Invalid proof: missing field'')) \<and>
   matches_verification_rule (lowerMessage_of (Error ''Invalid proof: missing field'')) \<and>
   matches_validation_rule (lowerMessage_of (Error ''Invalid proof: missing field'')) \<and>
   categorizeTransactionError (Some (Error ''Invalid proof: missing field'')) = VERIFICATION_FAILED \<and>
   matches_transaction_rule (lowerMessage_of (Error ''Invalid Transaction: bad proof'')) \<and>
   matches_verification_rule (lowerMessage_of (Error ''Invalid Transaction: bad proof'')) \<and>
   categorizeTransactionError (Some (Error ''Invalid Transaction: bad proof'')) = TRANSACTION_ERROR \<and>
   \<not> matches_transaction_rule (lowerMessage_of (Error ''Proof upload: connection lost'')) \<and>
   matches_network_rule (lowerMessage_of (Error ''Proof upload: connection lost'')) \<and>
   categorizeTransactionError (Some (Error ''Proof upload: connection lost'')) = NETWORK_ERROR \<and>
   \<not> matches_earlier_rule (lowerMessage_of (Error ''Missing field'')) \<and>
   \<not> matches_verification_rule (lowerMessage_of (Error ''Missing field'')) \<and>
   matches_validation_rule (lowerMessage_of (Error ''Missing field'')) \<and>
   categorizeTransactionError (Some (Error ''Missing field'')) = VALIDATION_ERROR"
proof -
  have h: "\<not> matches_earlier_rule (lowerMessage_of (Error ''Invalid proof: missing field''))"
    "matches_verification_rule (lowerMessage_of (Error ''Invalid proof: missing field''))"
    "matches_validation_rule (lowerMessage_of (Error ''Invalid proof: missing field''))"
    "matches_transaction_rule (lowerMessage_of (Error ''Invalid Transaction: bad proof''))"
    "matches_verification_rule (lowerMessage_of (Error ''Invalid Transaction: bad proof''))"
    "\<not> matches_transaction_rule (lowerMessage_of (Error ''Proof upload: connection lost''))"
    "matches_network_rule (lowerMessage_of (Error ''Proof upload: connection lost''))"
    "\<not> matches_earlier_rule (lowerMessage_of (Error ''Missing field''))"
    "\<not> matches_verification_rule (lowerMessage_of (Error ''Missing field''))"
    "matches_validation_rule (lowerMessage_of (Error ''Missing field''))"
    by (simp_all add: rule_defs str_defs)
  have a: "categorizeTransactionError (Some (Error ''Invalid proof: missing field'')) = VERIFICATION_FAILED"
    using verification_rule_before_validation_rule [of "Error ''Invalid proof: missing field''"]
      h(1,2) by (elim conjE) simp
  have b: "categorizeTransactionError (Some (Error ''Invalid Transaction: bad proof'')) = TRANSACTION_ERROR"
    using verification_rule_before_validation_rule [of "Error ''Invalid Transaction: bad proof''"]
      h(4) by (elim conjE) simp
  have c: "categorizeTransactionError (Some (Error ''Proof upload: connection lost'')) = NETWORK_ERROR"
    using verification_rule_before_validation_rule [of "Error ''Proof upload: connection lost''"]
      h(6,7) by (elim conjE) simp
  have d: "categorizeTransactionError (Some (Error ''Missing field'')) = VALIDATION_ERROR"
    using verification_rule_before_validation_rule [of "Error ''Missing field''"]
      h(8,9,10) by (elim conjE) simp
  show ?thesis using h a b c d by simp
qed

text \<open>
  The categorisation used for the logged failure record tests \<open>missing\<close> and
  \<open>invalid\<close> first, so the two functions label the same error differently.
\<close>

lemma categorizeError_tests_invalid_first:
  "categorizeError (Error ''Invalid proof'') = VALIDATION_ERROR \<and>
   categorizeTransactionError (Some (Error ''Invalid proof'')) = VERIFICATION_FAILED"
  by (simp add: categorizeError_def categorizeTransactionError_def str_defs)

text \<open>
  C1. The message \<open>Invalid Transaction: insufficient funds\<close> contains
  \<open>invalid transaction\<close> and not \<open>nonce\<close>, and the queue's test takes it for a nonce
  conflict: after the first failure the item is back in the pending list with its retry
  counter at 1, the caller's promise is still pending and nothing is counted as failed.
\<close>

theorem bare_invalid_transaction_is_retried:
  "str_includes (toLowerCase (message insufficient_funds)) ''invalid transaction'' \<and>
   \<not> str_includes (toLowerCase (message insufficient_funds)) ''nonce'' \<and>
   isNonceConflict (errorMsg_of insufficient_funds) \<and>
   isNonceConflictError insufficient_funds \<and>
   map qi_retryCount (queue insufficient_funds_run) = [1] \<and>
   map p_state (promises insufficient_funds_run) = [Pending] \<and>
   totalFailed insufficient_funds_run = 0 \<and>
   workers insufficient_funds_run = [Delaying]"
  by (simp add: insufficient_funds_run_def insufficient_funds_def test_config_def test_vk_def
      queue_defs str_defs isNonceConflict_def isNonceConflictError_def mk_id_def Let_def
      digits.simps)

section \<open>Properties of the reconnection logic\<close>

text \<open>
  C9. The \<open>n\<close>-th reconnection attempt in a row (the counter is \<open>n - 1\<close> before it and
  \<open>n\<close> from the moment it starts to wait) waits \<open>min (1000 * 2 ^ (n - 1)) 30000\<close>
  milliseconds; with the counter at the maximum no attempt starts and nothing changes;
  and a sequence of failed handshakes waits 1000, 2000, 4000, 8000, 16000 and then five
  times 30000 milliseconds, and stops there.
\<close>

theorem reconnection_backoff:
  "(1 \<le> n \<and> n \<le> MAX_RECONNECTION_ATTEMPTS \<and> \<not> isReconnecting srv \<and>
    reconnectionAttempts srv = n - 1
      \<longrightarrow> attemptReconnection srv =
            (Waits (min (1000 * 2 ^ (n - 1)) 30000),
             srv\<lparr>isReconnecting := True, reconnectionAttempts := n\<rparr>)) \<and>
   (MAX_RECONNECTION_ATTEMPTS \<le> reconnectionAttempts srv
      \<longrightarrow> fst (attemptReconnection srv) \<in> {GaveUp, Skipped} \<and>
          snd (attemptReconnection srv) = srv) \<and>
   (\<not> isReconnecting srv \<and> reconnectionAttempts srv = 0
      \<longrightarrow> fst (reconnect (replicate 10 None @ rs) srv) =
            [1000, 2000, 4000, 8000, 16000, 30000, 30000, 30000, 30000, 30000])"
proof (intro conjI impI)
  assume "1 \<le> n \<and> n \<le> MAX_RECONNECTION_ATTEMPTS \<and> \<not> isReconnecting srv \<and>
    reconnectionAttempts srv = n - 1"
  then show "attemptReconnection srv =
            (Waits (min (1000 * 2 ^ (n - 1)) 30000),
             srv\<lparr>isReconnecting := True, reconnectionAttempts := n\<rparr>)"
    by (auto simp: attemptReconnection_def MAX_RECONNECTION_ATTEMPTS_def
        BASE_RECONNECT_DELAY_def Let_def)
next
  assume "MAX_RECONNECTION_ATTEMPTS \<le> reconnectionAttempts srv"
  then show "fst (attemptReconnection srv) \<in> {GaveUp, Skipped}"
    by (simp add: attemptReconnection_def)
next
  assume "MAX_RECONNECTION_ATTEMPTS \<le> reconnectionAttempts srv"
  then show "snd (attemptReconnection srv) = srv"
    by (simp add: attemptReconnection_def)
next
  assume a: "\<not> isReconnecting srv \<and> reconnectionAttempts srv = 0"
  have r: "replicate 10 (None :: session option) =
    [None, None, None, None, None, None, None, None, None, None]"
    by (simp add: eval_nat_numeral)
  show "fst (reconnect (replicate 10 None @ rs) srv) =
            [1000, 2000, 4000, 8000, 16000, 30000, 30000, 30000, 30000, 30000]"
    using a unfolding r
    by (cases rs)
       (simp_all add: attemptReconnection_def reconnection_fails_def
          MAX_RECONNECTION_ATTEMPTS_def BASE_RECONNECT_DELAY_def Let_def split: prod.splits)
qed

theorem reconnection_backoff_witness:
  "fst (attemptReconnection (srv0\<lparr>reconnectionAttempts := 0\<rparr>)) = Waits 1000 \<and>
   fst (attemptReconnection (srv0\<lparr>reconnectionAttempts := 1\<rparr>)) = Waits 2000 \<and>
   fst (attemptReconnection (srv0\<lparr>reconnectionAttempts := 4\<rparr>)) = Waits 16000 \<and>
   fst (attemptReconnection (srv0\<lparr>reconnectionAttempts := 5\<rparr>)) = Waits 30000 \<and>
   reconnectionAttempts (snd (attemptReconnection (srv0\<lparr>reconnectionAttempts := 5\<rparr>))) = 6 \<and>
   attemptReconnection (srv0\<lparr>reconnectionAttempts := 10\<rparr>) =
     (GaveUp, srv0\<lparr>reconnectionAttempts := 10\<rparr>) \<and>
   fst (reconnect (replicate 10 None @ [None, None]) srv0) =
     [1000, 2000, 4000, 8000, 16000, 30000, 30000, 30000, 30000, 30000]"
  using reconnection_backoff [of 1 "srv0\<lparr>reconnectionAttempts := 0\<rparr>" "[None, None]"]
    reconnection_backoff [of 2 "srv0\<lparr>reconnectionAttempts := 1\<rparr>" "[]"]
    reconnection_backoff [of 5 "srv0\<lparr>reconnectionAttempts := 4\<rparr>" "[]"]
    reconnection_backoff [of 6 "srv0\<lparr>reconnectionAttempts := 5\<rparr>" "[]"]
    reconnection_backoff [of 10 "srv0\<lparr>reconnectionAttempts := 10\<rparr>" "[]"]
  by (simp add: srv0_def MAX_RECONNECTION_ATTEMPTS_def attemptReconnection_def)

text \<open>
  A disconnect event that arrives while a reconnection is in progress starts nothing,
  and a successful handshake puts the counter back to zero.
\<close>

lemma disconnect_while_reconnecting_is_skipped:
  "isReconnecting srv \<Longrightarrow> on_disconnected srv = (Skipped, srv\<lparr>zkSession := None\<rparr>)"
  by (simp add: on_disconnected_def attemptReconnection_def)

lemma reconnection_succeeds_resets:
  "reconnectionAttempts (reconnection_succeeds sess srv) = 0 \<and>
   \<not> isReconnecting (reconnection_succeeds sess srv) \<and>
   connected (reconnection_succeeds sess srv) = isConnected sess"
  by (simp add: reconnection_succeeds_def connected_def)

section \<open>Properties of the queue\<close>

text \<open>
  C8. \<open>clearQueue\<close> returns the number of pending items and whether an item was
  active, empties the pending list and records the \<open>queueCleared\<close> event; the active
  slot, the workers, the promises, the counters and the flags are as before, and the
  attempt in flight then completes as it would have: its promise is resolved and it is
  counted as processed.
\<close>

theorem clearQueue_frame:
  "fst (clearQueue s) = (length (queue s), activeTransaction s \<noteq> None) \<and>
   snd (clearQueue s) =
     s\<lparr>queue := [],
       emitted := emitted s @ [E_queueCleared (length (queue s)) (activeTransaction s \<noteq> None)]\<rparr> \<and>
   queue (snd (clearQueue s)) = [] \<and>
   activeTransaction (snd (clearQueue s)) = activeTransaction s \<and>
   workers (snd (clearQueue s)) = workers s \<and>
   promises (snd (clearQueue s)) = promises s \<and>
   totalProcessed (snd (clearQueue s)) = totalProcessed s \<and>
   totalFailed (snd (clearQueue s)) = totalFailed s \<and>
   lastCompletedTimestamp (snd (clearQueue s)) = lastCompletedTimestamp s \<and>
   isProcessing (snd (clearQueue s)) = isProcessing s \<and>
   isShuttingDown (snd (clearQueue s)) = isShuttingDown s \<and>
   (w < length (workers s) \<and> workers s ! w = Awaiting item \<longrightarrow>
      promises (attempt_resolves w r now (snd (clearQueue s))) =
        map (fire_completed (qi_id item) r) (promises s) \<and>
      totalProcessed (attempt_resolves w r now (snd (clearQueue s))) = totalProcessed s + 1 \<and>
      queue (attempt_resolves w r now (snd (clearQueue s))) = [])"
  by (simp add: clearQueue_def attempt_resolves_def resume_loop_def loop_iter_def Let_def)

lemma busy_queue_eq:
  "busy_queue =
     \<lparr>queue =
        [first_item\<lparr>qi_id := ''tx_2_b'', qi_timestamp := 2\<rparr>,
         first_item\<lparr>qi_id := ''tx_3_c'', qi_timestamp := 3\<rparr>,
         first_item\<lparr>qi_id := ''tx_4_d'', qi_timestamp := 4\<rparr>],
      activeTransaction =
        Some \<lparr>at_id = ''tx_1_a'', at_txHash = None, at_timestamp = 1, at_retryCount = 0,
              at_status = Submitting\<rparr>,
      isProcessing = True, isShuttingDown = False, lastCompletedTimestamp = None,
      totalProcessed = 0, totalFailed = 0, config = test_config,
      workers = [Awaiting first_item],
      promises =
        [\<lparr>p_id = ''tx_1_a'', p_state = Pending, p_timeoutMs = 5000, p_timerDelay = 5000,
          p_timerArmed = True,
          p_onCompleted = True, p_onFailed = True\<rparr>,
         \<lparr>p_id = ''tx_2_b'', p_state = Pending, p_timeoutMs = 5000, p_timerDelay = 5000,
          p_timerArmed = True,
          p_onCompleted = True, p_onFailed = True\<rparr>,
         \<lparr>p_id = ''tx_3_c'', p_state = Pending, p_timeoutMs = 5000, p_timerDelay = 5000,
          p_timerArmed = True,
          p_onCompleted = True, p_onFailed = True\<rparr>,
         \<lparr>p_id = ''tx_4_d'', p_state = Pending, p_timeoutMs = 5000, p_timerDelay = 5000,
          p_timerArmed = True,
          p_onCompleted = True, p_onFailed = True\<rparr>],
      shutdowns = [],
      emitted =
        [E_enqueued ''tx_1_a'' 1, E_processing ''tx_1_a'' 0, E_enqueued ''tx_2_b'' 1,
         E_enqueued ''tx_3_c'' 2, E_enqueued ''tx_4_d'' 3]\<rparr>"
  by (simp add: busy_queue_def first_item_def queue_defs mk_id_def digits.simps Let_def
      test_config_def)

lemma one_submitted_eq:
  "one_submitted =
     \<lparr>queue = [],
      activeTransaction =
        Some \<lparr>at_id = ''tx_1_a'', at_txHash = None, at_timestamp = 1, at_retryCount = 0,
              at_status = Submitting\<rparr>,
      isProcessing = True, isShuttingDown = False, lastCompletedTimestamp = None,
      totalProcessed = 0, totalFailed = 0, config = test_config,
      workers = [Awaiting first_item],
      promises =
        [\<lparr>p_id = ''tx_1_a'', p_state = Pending, p_timeoutMs = 5000, p_timerDelay = 5000,
          p_timerArmed = True,
          p_onCompleted = True, p_onFailed = True\<rparr>],
      shutdowns = [],
      emitted = [E_enqueued ''tx_1_a'' 1, E_processing ''tx_1_a'' 0]\<rparr>"
  by (simp add: one_submitted_def first_item_def queue_defs mk_id_def digits.simps Let_def
      test_config_def)

lemma priority_too_low_is_nonce_conflict: "isNonceConflict (errorMsg_of priority_too_low)"
  by (simp add: priority_too_low_def isNonceConflict_def errorMsg_of_def)

theorem clearQueue_frame_witness:
  "length (queue busy_queue) = 3 \<and> activeTransaction busy_queue \<noteq> None \<and>
   0 < length (workers busy_queue) \<and> workers busy_queue ! 0 = Awaiting first_item \<and>
   fst (clearQueue busy_queue) = (3, True) \<and>
   queue (snd (clearQueue busy_queue)) = [] \<and>
   workers (snd (clearQueue busy_queue)) = [Awaiting first_item] \<and>
   map p_state (promises (attempt_resolves 0 test_result 9 (snd (clearQueue busy_queue)))) =
     [Resolved test_result, Pending, Pending, Pending] \<and>
   totalProcessed (attempt_resolves 0 test_result 9 (snd (clearQueue busy_queue))) = 1"
proof -
  have h: "0 < length (workers busy_queue) \<and> workers busy_queue ! 0 = Awaiting first_item"
    by (simp add: busy_queue_eq)
  have c: "fst (clearQueue busy_queue) = (length (queue busy_queue), activeTransaction busy_queue \<noteq> None)"
    "queue (snd (clearQueue busy_queue)) = []"
    "workers (snd (clearQueue busy_queue)) = workers busy_queue"
    "promises (attempt_resolves 0 test_result 9 (snd (clearQueue busy_queue))) =
        map (fire_completed (qi_id first_item) test_result) (promises busy_queue)"
    "totalProcessed (attempt_resolves 0 test_result 9 (snd (clearQueue busy_queue))) =
        totalProcessed busy_queue + 1"
    using clearQueue_frame [of busy_queue 0 first_item test_result 9] h by blast+
  show ?thesis
    unfolding c by (simp add: busy_queue_eq first_item_def fire_completed_def settle_def)
qed

lemmas log_defs = terminal_ids_def enqueued_ids_def inflight_def

lemma subseq_snoc: "subseq xs ys \<Longrightarrow> subseq (xs @ [a]) (ys @ [a])"
  by (simp add: list_emb_append_mono)

lemma subseq_take_drop: "subseq (take n ys @ drop (Suc n) ys) ys"
  by (induction ys arbitrary: n) (auto simp: take_Cons split: nat.splits)

lemma subseq_drop_middle: "subseq (xs @ take n ys @ drop (Suc n) ys) (xs @ ys)"
  by (intro list_emb_append_mono subseq_take_drop) simp

lemma single_worker: "length ws \<le> 1 \<Longrightarrow> w < length ws \<Longrightarrow> \<exists>a. ws = [a] \<and> w = 0"
  by (cases ws) auto

lemma serial_new: "serial (new_queue cfg)"
  by (simp add: serial_def new_queue_def log_defs)

lemma serial_submit: "serial s \<Longrightarrow> serial (snd (submit prf sigs v net tmo now rnd s))"
  by (cases "queue s"; cases "workers s")
     (auto simp: serial_def submit_def processQueue_def loop_iter_def Let_def log_defs subseq_snoc
        split: list.splits dest: subseq_snoc)

lemma serial_resume_loop:
  assumes "workers s = [a]" "isProcessing s"
    "subseq (terminal_ids (emitted s) @ map qi_id (queue s)) (enqueued_ids (emitted s))"
  shows "serial (resume_loop 0 s)"
  using assms
  by (cases "queue s")
     (auto simp: serial_def resume_loop_def loop_iter_def log_defs)

lemma serial_attempt_resolves: "serial s \<Longrightarrow> serial (attempt_resolves w r now s)"
proof (cases "w < length (workers s)")
  case False then show "serial s \<Longrightarrow> ?thesis" by (simp add: attempt_resolves_def)
next
  case True
  assume s: "serial s"
  then obtain a where a: "workers s = [a]" "w = 0"
    using single_worker True unfolding serial_def by blast
  show ?thesis
  proof (cases a)
    case Delaying then show ?thesis using s a by (simp add: attempt_resolves_def)
  next
    case (Awaiting item)
    then show ?thesis using s a
      unfolding attempt_resolves_def
      by (simp, intro serial_resume_loop) (auto simp: serial_def log_defs)
  qed
qed

lemma serial_attempt_rejects: "serial s \<Longrightarrow> serial (attempt_rejects w e s)"
proof (cases "w < length (workers s)")
  case False then show "serial s \<Longrightarrow> ?thesis" by (simp add: attempt_rejects_def)
next
  case True
  assume s: "serial s"
  then obtain a where a: "workers s = [a]" "w = 0"
    using single_worker True unfolding serial_def by blast
  show ?thesis
  proof (cases a)
    case Delaying then show ?thesis using s a by (simp add: attempt_rejects_def)
  next
    case (Awaiting item)
    show ?thesis
    proof (cases "isNonceConflict (errorMsg_of e) \<and> qi_retryCount item < qi_maxRetries item")
      case True
      then show ?thesis using s a Awaiting
        by (auto simp: attempt_rejects_def serial_def log_defs Let_def)
    next
      case False
      then have "attempt_rejects w e s =
          resume_loop 0
            (s\<lparr>activeTransaction := None, totalFailed := totalFailed s + 1,
               promises := map (fire_failed (qi_id item) e) (promises s),
               emitted := emitted s @ [E_failed_id (qi_id item) e, E_failed (qi_id item) e]\<rparr>)"
        using a Awaiting by (auto simp: attempt_rejects_def Let_def)
      moreover have "serial \<dots>"
        using s a Awaiting by (intro serial_resume_loop) (auto simp: serial_def log_defs)
      ultimately show ?thesis by simp
    qed
  qed
qed

lemma serial_delay_elapses: "serial s \<Longrightarrow> serial (delay_elapses w s)"
proof (cases "w < length (workers s)")
  case False then show "serial s \<Longrightarrow> ?thesis" by (simp add: delay_elapses_def)
next
  case True
  assume s: "serial s"
  then obtain a where a: "workers s = [a]" "w = 0"
    using single_worker True unfolding serial_def by blast
  show ?thesis
  proof (cases a)
    case (Awaiting item) then show ?thesis using s a by (simp add: delay_elapses_def)
  next
    case Delaying
    then show ?thesis using s a
      unfolding delay_elapses_def
      by (simp, intro serial_resume_loop) (auto simp: serial_def log_defs)
  qed
qed

lemma serial_timer_fires: "serial s \<Longrightarrow> serial (timer_fires k txt s)"
proof -
  assume s: "serial s"
  have "subseq ((terminal_ids (emitted s) @ map qi_id (inflight (workers s))) @
           take n (map qi_id (queue s)) @ drop (Suc n) (map qi_id (queue s)))
          ((terminal_ids (emitted s) @ map qi_id (inflight (workers s))) @ map qi_id (queue s))" for n
    by (rule subseq_drop_middle)
  then have "subseq ((terminal_ids (emitted s) @ map qi_id (inflight (workers s))) @
           take n (map qi_id (queue s)) @ drop (Suc n) (map qi_id (queue s)))
          (enqueued_ids (emitted s))" for n
    using s unfolding serial_def by (metis append.assoc subseq_order.order_trans)
  then show ?thesis using s
    by (auto simp: timer_fires_def serial_def Let_def take_map drop_map split: option.splits)
qed

lemma serial_clearQueue: "serial s \<Longrightarrow> serial (snd (clearQueue s))"
proof -
  assume s: "serial s"
  have "subseq ((terminal_ids (emitted s) @ map qi_id (inflight (workers s))) @ [])
     ((terminal_ids (emitted s) @ map qi_id (inflight (workers s))) @ map qi_id (queue s))"
    by (intro list_emb_append_mono) simp_all
  then have "subseq (terminal_ids (emitted s) @ map qi_id (inflight (workers s))) (enqueued_ids (emitted s))"
    using s unfolding serial_def by (metis append.assoc append_Nil2 subseq_order.order_trans)
  then show ?thesis using s
    by (auto simp: clearQueue_def serial_def Let_def log_defs)
qed

lemma serial_shutdown: "serial s \<Longrightarrow> serial (shutdown s)"
  by (auto simp: shutdown_def shutdown_finish_def serial_def Let_def log_defs)

lemma serial_shutdown_wakes: "serial s \<Longrightarrow> serial (shutdown_wakes k s)"
  by (auto simp: shutdown_wakes_def shutdown_finish_def serial_def Let_def log_defs)

lemma serial_step: "serial s \<Longrightarrow> e \<noteq> Pause \<Longrightarrow> e \<noteq> Resume \<Longrightarrow> serial (step e s)"
  by (cases e)
     (simp_all add: serial_submit serial_attempt_resolves serial_attempt_rejects
        serial_delay_elapses serial_timer_fires serial_clearQueue serial_shutdown
        serial_shutdown_wakes)

lemma serial_run: "serial s \<Longrightarrow> \<forall>e \<in> set es. e \<noteq> Pause \<and> e \<noteq> Resume \<Longrightarrow> serial (run es s)"
  by (induction es arbitrary: s) (simp_all add: serial_step)

lemma subseq_appendL: "subseq (xs @ zs) ys \<Longrightarrow> subseq xs ys"
  by (meson list_emb_prefix subseq_order.order_refl subseq_order.order_trans)

text \<open>
  C3. In every run from a new queue that is made of submissions, ends of attempts, ends
  of delays, timers, clearing and shutdown (no \<open>pause\<close>, no \<open>resume\<close>), at most one
  call of \<open>processQueue\<close> is running and so at most one item is in flight; and the items
  reach \<open>completed\<close> or \<open>failed\<close> in the order in which they were enqueued: a retried
  item, which goes back to the head of the pending list, is passed by none of the items
  enqueued after it.
\<close>

theorem one_at_a_time_in_submission_order:
  assumes "\<forall>e \<in> set es. e \<noteq> Pause \<and> e \<noteq> Resume"
  shows "length (workers (run es (new_queue cfg))) \<le> 1 \<and>
    length (inflight (workers (run es (new_queue cfg)))) \<le> 1 \<and>
    subseq (terminal_ids (emitted (run es (new_queue cfg))))
      (enqueued_ids (emitted (run es (new_queue cfg))))"
proof -
  have s: "serial (run es (new_queue cfg))"
    using assms by (intro serial_run serial_new)
  then have "length (workers (run es (new_queue cfg))) \<le> 1"
    by (simp add: serial_def)
  moreover from this have "length (inflight (workers (run es (new_queue cfg)))) \<le> 1"
    by (cases "workers (run es (new_queue cfg))"; cases "hd (workers (run es (new_queue cfg)))")
       (auto simp: inflight_def)
  moreover have "subseq (terminal_ids (emitted (run es (new_queue cfg))))
      (enqueued_ids (emitted (run es (new_queue cfg))))"
    using s unfolding serial_def by (blast intro: subseq_appendL)
  ultimately show ?thesis by blast
qed

lemma retry_run_log:
  "emitted (run retry_run_events (new_queue test_config)) =
    [E_enqueued ''tx_1_a'' 1, E_processing ''tx_1_a'' 0, E_enqueued ''tx_2_b'' 1,
     E_retry ''tx_1_a'' 1 ''Priority is too low'', E_enqueued ''tx_3_c'' 3,
     E_processing ''tx_1_a'' 2, E_completed_id ''tx_1_a'' test_result,
     E_completed ''tx_1_a'' test_result, E_processing ''tx_2_b'' 1,
     E_failed_id ''tx_2_b'' (Error ''Test error''), E_failed ''tx_2_b'' (Error ''Test error''),
     E_processing ''tx_3_c'' 0]"
  by (simp add: retry_run_events_def queue_defs mk_id_def digits.simps Let_def
      test_config_def isNonceConflict_def errorMsg_of_def)

theorem one_at_a_time_in_submission_order_witness:
  "list_all (\<lambda>e. e \<noteq> Pause \<and> e \<noteq> Resume) retry_run_events \<and>
   length (inflight (workers (run retry_run_events (new_queue test_config)))) \<le> 1 \<and>
   terminal_ids (emitted (run retry_run_events (new_queue test_config))) = [''tx_1_a'', ''tx_2_b''] \<and>
   enqueued_ids (emitted (run retry_run_events (new_queue test_config))) =
     [''tx_1_a'', ''tx_2_b'', ''tx_3_c''] \<and>
   subseq (terminal_ids (emitted (run retry_run_events (new_queue test_config))))
     (enqueued_ids (emitted (run retry_run_events (new_queue test_config))))"
proof -
  have h: "\<forall>e \<in> set retry_run_events. e \<noteq> Pause \<and> e \<noteq> Resume"
    by (simp add: retry_run_events_def)
  from one_at_a_time_in_submission_order [OF h, of test_config] show ?thesis
    using h by (simp add: retry_run_log log_defs list_all_iff)
qed

text \<open>
  Without the restriction the first part fails: \<open>pause\<close> clears \<open>isProcessing\<close> under
  a running worker, and \<open>resume\<close> then starts a second one.
\<close>

lemma pause_and_resume_start_a_second_worker:
  "map qi_id (inflight (workers paused_and_resumed)) = [''tx_1_a'', ''tx_2_b'']"
  by (simp add: paused_and_resumed_def queue_defs mk_id_def digits.simps Let_def inflight_def
      test_config_def)

lemma shutting_down_step: "isShuttingDown s \<Longrightarrow> isShuttingDown (step e s)"
  by (cases e)
     (auto simp: queue_defs Let_def split: list.splits worker.splits prod.splits option.splits)

lemma shutting_down_run: "isShuttingDown s \<Longrightarrow> isShuttingDown (run es s)"
  by (induction es arbitrary: s) (simp_all add: shutting_down_step)

lemma drained_step:
  "isShuttingDown s \<Longrightarrow> \<not> isProcessing s \<Longrightarrow> \<not> isProcessing (step e s)"
  by (cases e)
     (auto simp: queue_defs Let_def split: list.splits worker.splits prod.splits option.splits)

lemma drained_run:
  "isShuttingDown s \<Longrightarrow> \<not> isProcessing s \<Longrightarrow> \<not> isProcessing (run es s)"
  by (induction es arbitrary: s) (simp_all add: shutting_down_step drained_step)

text \<open>
  A queue that is shutting down with one worker: when the attempt in flight ends (and,
  after a failure that is retried, the delay too), the loop ends and \<open>isProcessing\<close>
  is cleared; nothing is added to or taken from the calls of \<open>shutdown\<close> that wait.
\<close>

lemma drain_attempt_resolves:
  assumes "isShuttingDown q" "workers q = [Awaiting item]"
  shows "\<not> isProcessing (attempt_resolves 0 r now q) \<and> workers (attempt_resolves 0 r now q) = [] \<and>
    shutdowns (attempt_resolves 0 r now q) = shutdowns q \<and>
    emitted (attempt_resolves 0 r now q) =
      emitted q @ [E_completed_id (qi_id item) r, E_completed (qi_id item) r]"
  using assms
  by (cases "queue q") (simp_all add: attempt_resolves_def resume_loop_def loop_iter_def)

lemma drain_attempt_rejects:
  assumes "isShuttingDown q" "workers q = [Awaiting item]"
  shows "\<not> isProcessing (run [AttemptRejects 0 e, DelayElapses 0] q) \<and>
    workers (run [AttemptRejects 0 e, DelayElapses 0] q) = [] \<and>
    shutdowns (run [AttemptRejects 0 e, DelayElapses 0] q) = shutdowns q"
proof (cases "isNonceConflict (errorMsg_of e) \<and> qi_retryCount item < qi_maxRetries item")
  case True
  then show ?thesis using assms
    by (simp add: attempt_rejects_def delay_elapses_def resume_loop_def loop_iter_def Let_def)
next
  case False
  then show ?thesis using assms
    by (cases "queue q")
       (auto simp: attempt_rejects_def delay_elapses_def resume_loop_def loop_iter_def Let_def)
qed

lemma drain_delay_elapses:
  assumes "isShuttingDown q" "workers q = [Delaying]"
  shows "\<not> isProcessing (delay_elapses 0 q) \<and> workers (delay_elapses 0 q) = [] \<and>
    shutdowns (delay_elapses 0 q) = shutdowns q"
  using assms
  by (cases "queue q") (simp_all add: delay_elapses_def resume_loop_def loop_iter_def)

text \<open>
  C7. From the moment \<open>shutdown\<close> has been called, whatever happens next, \<open>submit\<close>
  throws the shutting-down error and leaves the queue as it is (nothing is enqueued). A
  second \<open>shutdown\<close> leaves the flag set and the pending list, the workers and the
  active slot as they are, and it has no failing path. When no \<open>processQueue\<close> is running
  (as is the case for good once the first call has found none) it completes at once
  without waiting. When one is still running, the call waits beside the first; the end
  of the attempt in flight clears \<open>isProcessing\<close>, and from then on each waiting call
  completes when it next wakes: it leaves the waiting calls, emits
  \<open>shutdownComplete\<close> and the flag stays set. So two calls made while an attempt is in
  flight have both returned once the attempt has ended and each has woken.
\<close>

theorem shutdown_rejects_submissions:
  "submit prf sigs v net tmo now rnd (run es (shutdown s)) =
     (Inl shutting_down_error, run es (shutdown s)) \<and>
   isShuttingDown (run es (shutdown s)) \<and>
   isShuttingDown (shutdown (run es (shutdown s))) \<and>
   queue (shutdown (run es (shutdown s))) = queue (run es (shutdown s)) \<and>
   workers (shutdown (run es (shutdown s))) = workers (run es (shutdown s)) \<and>
   activeTransaction (shutdown (run es (shutdown s))) = activeTransaction (run es (shutdown s)) \<and>
   (\<not> isProcessing (shutdown s) \<longrightarrow> \<not> isProcessing (run es (shutdown s))) \<and>
   (\<not> isProcessing (run es (shutdown s)) \<longrightarrow>
      shutdowns (shutdown (run es (shutdown s))) = shutdowns (run es (shutdown s)) \<and>
      emitted (shutdown (run es (shutdown s))) =
        emitted (run es (shutdown s)) @
          [E_shutdownInitiated (getStatus (run es (shutdown s))),
           E_shutdownComplete (getStatus (run es (shutdown s)))]) \<and>
   (isProcessing (run es (shutdown s)) \<longrightarrow>
      shutdowns (shutdown (run es (shutdown s))) =
        shutdowns (run es (shutdown s)) @ [getStatus (run es (shutdown s))]) \<and>
   (workers (run es (shutdown s)) = [Awaiting item] \<longrightarrow>
      \<not> isProcessing (step (AttemptResolves 0 r t) (run es (shutdown s))) \<and>
      \<not> isProcessing (run [AttemptRejects 0 e, DelayElapses 0] (run es (shutdown s)))) \<and>
   (workers (run es (shutdown s)) = [Delaying] \<longrightarrow>
      \<not> isProcessing (step (DelayElapses 0) (run es (shutdown s)))) \<and>
   (\<not> isProcessing (run es (shutdown s)) \<and> k < length (shutdowns (run es (shutdown s))) \<longrightarrow>
      shutdowns (step (ShutdownWakes k) (run es (shutdown s))) =
        take k (shutdowns (run es (shutdown s))) @ drop (Suc k) (shutdowns (run es (shutdown s))) \<and>
      emitted (step (ShutdownWakes k) (run es (shutdown s))) =
        emitted (run es (shutdown s)) @ [E_shutdownComplete (shutdowns (run es (shutdown s)) ! k)] \<and>
      isShuttingDown (step (ShutdownWakes k) (run es (shutdown s))) \<and>
      \<not> isProcessing (step (ShutdownWakes k) (run es (shutdown s)))) \<and>
   (workers s = [Awaiting item] \<and> isProcessing s \<longrightarrow>
      shutdowns (run [Shutdown, AttemptResolves 0 r t, ShutdownWakes (length (shutdowns s)),
                      ShutdownWakes (length (shutdowns s))] (shutdown s)) = shutdowns s \<and>
      emitted (run [Shutdown, AttemptResolves 0 r t, ShutdownWakes (length (shutdowns s)),
                    ShutdownWakes (length (shutdowns s))] (shutdown s)) =
        emitted s @
          [E_shutdownInitiated (getStatus s), E_shutdownInitiated (getStatus s),
           E_completed_id (qi_id item) r, E_completed (qi_id item) r,
           E_shutdownComplete (getStatus s), E_shutdownComplete (getStatus s)] \<and>
      shutdowns (run [Shutdown, AttemptRejects 0 e, DelayElapses 0,
                      ShutdownWakes (length (shutdowns s)),
                      ShutdownWakes (length (shutdowns s))] (shutdown s)) = shutdowns s)"
proof -
  let ?S = "run es (shutdown s)"
  have b: "isShuttingDown (shutdown s)"
    by (simp add: shutdown_def shutdown_finish_def Let_def)
  then have r: "isShuttingDown ?S"
    by (rule shutting_down_run)
  have d: "\<not> isProcessing (shutdown s) \<Longrightarrow> \<not> isProcessing ?S"
    using b by (rule drained_run)
  have first: "submit prf sigs v net tmo now rnd ?S = (Inl shutting_down_error, ?S) \<and>
      isShuttingDown (shutdown ?S) \<and> queue (shutdown ?S) = queue ?S \<and>
      workers (shutdown ?S) = workers ?S \<and> activeTransaction (shutdown ?S) = activeTransaction ?S \<and>
      (\<not> isProcessing ?S \<longrightarrow>
         shutdowns (shutdown ?S) = shutdowns ?S \<and>
         emitted (shutdown ?S) =
           emitted ?S @ [E_shutdownInitiated (getStatus ?S), E_shutdownComplete (getStatus ?S)]) \<and>
      (isProcessing ?S \<longrightarrow> shutdowns (shutdown ?S) = shutdowns ?S @ [getStatus ?S])"
    using r by (simp add: submit_def shutdown_def shutdown_finish_def getStatus_def Let_def)
  have ends: "workers ?S = [Awaiting item] \<Longrightarrow>
      \<not> isProcessing (step (AttemptResolves 0 r t) ?S) \<and>
      \<not> isProcessing (run [AttemptRejects 0 e, DelayElapses 0] ?S)"
    using drain_attempt_resolves [OF r, of item r t] drain_attempt_rejects [OF r, of item e]
    by simp
  have slept: "workers ?S = [Delaying] \<Longrightarrow> \<not> isProcessing (step (DelayElapses 0) ?S)"
    using drain_delay_elapses [OF r] by simp
  have wakes: "\<not> isProcessing ?S \<Longrightarrow> k < length (shutdowns ?S) \<Longrightarrow>
      shutdowns (step (ShutdownWakes k) ?S) = take k (shutdowns ?S) @ drop (Suc k) (shutdowns ?S) \<and>
      emitted (step (ShutdownWakes k) ?S) = emitted ?S @ [E_shutdownComplete (shutdowns ?S ! k)] \<and>
      isShuttingDown (step (ShutdownWakes k) ?S) \<and> \<not> isProcessing (step (ShutdownWakes k) ?S)"
    using r by (simp add: shutdown_wakes_def shutdown_finish_def)
  have both: "shutdowns (run [Shutdown, AttemptResolves 0 r t, ShutdownWakes (length (shutdowns s)),
                      ShutdownWakes (length (shutdowns s))] (shutdown s)) = shutdowns s \<and>
      emitted (run [Shutdown, AttemptResolves 0 r t, ShutdownWakes (length (shutdowns s)),
                    ShutdownWakes (length (shutdowns s))] (shutdown s)) =
        emitted s @
          [E_shutdownInitiated (getStatus s), E_shutdownInitiated (getStatus s),
           E_completed_id (qi_id item) r, E_completed (qi_id item) r,
           E_shutdownComplete (getStatus s), E_shutdownComplete (getStatus s)] \<and>
      shutdowns (run [Shutdown, AttemptRejects 0 e, DelayElapses 0,
                      ShutdownWakes (length (shutdowns s)),
                      ShutdownWakes (length (shutdowns s))] (shutdown s)) = shutdowns s"
    if w: "workers s = [Awaiting item]" "isProcessing s"
  proof -
    let ?q = "shutdown (shutdown s)"
    have q: "isShuttingDown ?q" "workers ?q = [Awaiting item]"
      "shutdowns ?q = shutdowns s @ [getStatus s, getStatus s]"
      "emitted ?q = emitted s @ [E_shutdownInitiated (getStatus s), E_shutdownInitiated (getStatus s)]"
      using w by (simp_all add: shutdown_def getStatus_def Let_def)
    note ok = drain_attempt_resolves [OF q(1) q(2), of r t]
    note ko = drain_attempt_rejects [OF q(1) q(2), of e]
    have one: "shutdowns (run [ShutdownWakes (length (shutdowns s)),
          ShutdownWakes (length (shutdowns s))] (attempt_resolves 0 r t ?q)) = shutdowns s \<and>
        emitted (run [ShutdownWakes (length (shutdowns s)),
          ShutdownWakes (length (shutdowns s))] (attempt_resolves 0 r t ?q)) =
        emitted s @
          [E_shutdownInitiated (getStatus s), E_shutdownInitiated (getStatus s),
           E_completed_id (qi_id item) r, E_completed (qi_id item) r,
           E_shutdownComplete (getStatus s), E_shutdownComplete (getStatus s)]"
      using ok q(3,4) by (simp add: shutdown_wakes_def shutdown_finish_def nth_append)
    have two: "shutdowns (run [ShutdownWakes (length (shutdowns s)),
          ShutdownWakes (length (shutdowns s))]
          (run [AttemptRejects 0 e, DelayElapses 0] ?q)) = shutdowns s"
      using ko q(3) by (simp add: shutdown_wakes_def shutdown_finish_def nth_append)
    show ?thesis using one two by simp
  qed
  show ?thesis
    using r d first ends slept wakes both by simp
qed

theorem shutdown_rejects_submissions_witness:
  "\<not> isProcessing (shutdown (new_queue test_config)) \<and>
   \<not> isProcessing (run [Submit ''proof'' [''signal''] test_vk Testnet None 1 ''a'']
                     (shutdown (new_queue test_config))) \<and>
   submit ''proof'' [''signal''] test_vk Testnet None 2 ''b''
     (run [Submit ''proof'' [''signal''] test_vk Testnet None 1 ''a'']
        (shutdown (new_queue test_config))) =
     (Inl shutting_down_error,
      run [Submit ''proof'' [''signal''] test_vk Testnet None 1 ''a'']
        (shutdown (new_queue test_config))) \<and>
   queue (run [Submit ''proof'' [''signal''] test_vk Testnet None 1 ''a'']
            (shutdown (new_queue test_config))) = [] \<and>
   shutdowns (shutdown (run [Submit ''proof'' [''signal''] test_vk Testnet None 1 ''a'']
                          (shutdown (new_queue test_config)))) = [] \<and>
   workers one_submitted = [Awaiting first_item] \<and> isProcessing one_submitted \<and>
   shutdowns one_submitted = [] \<and>
   length (shutdowns (shutdown (shutdown one_submitted))) = 2 \<and>
   submit ''proof'' [''signal''] test_vk Testnet None 2 ''b''
     (run [Shutdown] (shutdown one_submitted)) =
     (Inl shutting_down_error, run [Shutdown] (shutdown one_submitted)) \<and>
   shutdowns (run [Shutdown, AttemptResolves 0 test_result 9, ShutdownWakes 0, ShutdownWakes 0]
     (shutdown one_submitted)) = [] \<and>
   shutdowns (run [Shutdown, AttemptRejects 0 priority_too_low, DelayElapses 0,
     ShutdownWakes 0, ShutdownWakes 0] (shutdown one_submitted)) = []"
proof -
  have h: "\<not> isProcessing (shutdown (new_queue test_config))"
    by (simp add: queue_defs Let_def)
  have q: "queue (run [Submit ''proof'' [''signal''] test_vk Testnet None 1 ''a'']
            (shutdown (new_queue test_config))) = []"
    "shutdowns (run [Submit ''proof'' [''signal''] test_vk Testnet None 1 ''a'']
            (shutdown (new_queue test_config))) = []"
    by (simp_all add: queue_defs Let_def)
  have o: "workers one_submitted = [Awaiting first_item]" "isProcessing one_submitted"
    "shutdowns one_submitted = []"
    "length (shutdowns (shutdown (shutdown one_submitted))) = 2"
    by (simp_all add: one_submitted_eq shutdown_def getStatus_def Let_def)
  note idle = shutdown_rejects_submissions
    [of "''proof''" "[''signal'']" test_vk Testnet None 2 "''b''"
        "[Submit ''proof'' [''signal''] test_vk Testnet None 1 ''a'']" "new_queue test_config"]
  note busy = shutdown_rejects_submissions
    [of "''proof''" "[''signal'']" test_vk Testnet None 2 "''b''"
        "[Shutdown]" one_submitted first_item test_result 9 priority_too_low]
  have i: "submit ''proof'' [''signal''] test_vk Testnet None 2 ''b''
     (run [Submit ''proof'' [''signal''] test_vk Testnet None 1 ''a'']
        (shutdown (new_queue test_config))) =
     (Inl shutting_down_error,
      run [Submit ''proof'' [''signal''] test_vk Testnet None 1 ''a'']
        (shutdown (new_queue test_config)))"
    "\<not> isProcessing (run [Submit ''proof'' [''signal''] test_vk Testnet None 1 ''a'']
                     (shutdown (new_queue test_config)))"
    "shutdowns (shutdown (run [Submit ''proof'' [''signal''] test_vk Testnet None 1 ''a'']
                          (shutdown (new_queue test_config)))) =
     shutdowns (run [Submit ''proof'' [''signal''] test_vk Testnet None 1 ''a'']
                          (shutdown (new_queue test_config)))"
    using idle h by blast+
  have u: "submit ''proof'' [''signal''] test_vk Testnet None 2 ''b''
     (run [Shutdown] (shutdown one_submitted)) =
     (Inl shutting_down_error, run [Shutdown] (shutdown one_submitted))"
    "shutdowns (run [Shutdown, AttemptResolves 0 test_result 9,
        ShutdownWakes (length (shutdowns one_submitted)),
        ShutdownWakes (length (shutdowns one_submitted))] (shutdown one_submitted)) =
      shutdowns one_submitted"
    "shutdowns (run [Shutdown, AttemptRejects 0 priority_too_low, DelayElapses 0,
        ShutdownWakes (length (shutdowns one_submitted)),
        ShutdownWakes (length (shutdowns one_submitted))] (shutdown one_submitted)) =
      shutdowns one_submitted"
    using busy o(1,2) by blast+
  show ?thesis
    using h q o i(1,2) u i(3) unfolding o(3) by simp
qed

lemma retry_round:
  assumes "workers s = [Awaiting item]" "queue s = []" "\<not> isShuttingDown s"
    "isNonceConflict (errorMsg_of e)" "qi_retryCount item < qi_maxRetries item"
  shows "workers (run [AttemptRejects 0 e, DelayElapses 0] s) =
           [Awaiting (item\<lparr>qi_retryCount := qi_retryCount item + 1\<rparr>)] \<and>
         queue (run [AttemptRejects 0 e, DelayElapses 0] s) = [] \<and>
         \<not> isShuttingDown (run [AttemptRejects 0 e, DelayElapses 0] s) \<and>
         promises (run [AttemptRejects 0 e, DelayElapses 0] s) = promises s \<and>
         totalFailed (run [AttemptRejects 0 e, DelayElapses 0] s) = totalFailed s"
  using assms
  by (simp add: attempt_rejects_def delay_elapses_def resume_loop_def loop_iter_def Let_def)

lemma run_append: "run (es @ fs) s = run fs (run es s)"
  by (induction es arbitrary: s) simp_all

lemma retry_rounds_Suc: "retry_rounds (Suc n) e = retry_rounds n e @ [AttemptRejects 0 e, DelayElapses 0]"
  unfolding retry_rounds_def
  by (induction n) simp_all

lemma retry_rounds_run:
  assumes "workers s = [Awaiting item]" "queue s = []" "\<not> isShuttingDown s"
    "isNonceConflict (errorMsg_of e)" "qi_retryCount item = 0"
  shows "n \<le> qi_maxRetries item \<Longrightarrow>
         workers (run (retry_rounds n e) s) = [Awaiting (item\<lparr>qi_retryCount := n\<rparr>)] \<and>
         queue (run (retry_rounds n e) s) = [] \<and>
         \<not> isShuttingDown (run (retry_rounds n e) s) \<and>
         promises (run (retry_rounds n e) s) = promises s \<and>
         totalFailed (run (retry_rounds n e) s) = totalFailed s"
proof (induction n)
  case 0
  then show ?case using assms by (simp add: retry_rounds_def)
next
  case (Suc n)
  then have ih: "workers (run (retry_rounds n e) s) = [Awaiting (item\<lparr>qi_retryCount := n\<rparr>)]"
    "queue (run (retry_rounds n e) s) = []"
    "\<not> isShuttingDown (run (retry_rounds n e) s)"
    "promises (run (retry_rounds n e) s) = promises s"
    "totalFailed (run (retry_rounds n e) s) = totalFailed s"
    by simp_all
  have lt: "qi_retryCount (item\<lparr>qi_retryCount := n\<rparr>) < qi_maxRetries (item\<lparr>qi_retryCount := n\<rparr>)"
    using Suc.prems by simp
  from retry_round [OF ih(1) ih(2) ih(3) assms(4) lt]
  show ?case
    unfolding retry_rounds_Suc run_append using ih by simp
qed

text \<open>
  What the queue does with an error that its own test takes for a nonce conflict. With
  retries left, the item goes back to the head of the pending list with its counter one
  higher, a \<open>retry\<close> event is recorded, the worker sleeps, and no promise and no
  counter changes; with none left, the failure is counted, the \<open>failed\<close> events are
  emitted and the caller's promise is rejected with the error. So a lone item in a new
  queue is retried \<open>retryAttempts\<close> times, its promise pending all the while, and the
  failure after that rejects the promise.
\<close>

theorem nonce_conflict_retry:
  assumes "w < length (workers s)" "workers s ! w = Awaiting item"
    "isNonceConflict (errorMsg_of e)"
  shows
    "(qi_retryCount item < qi_maxRetries item \<longrightarrow>
        attempt_rejects w e s =
          s\<lparr>queue := item\<lparr>qi_retryCount := qi_retryCount item + 1\<rparr> # queue s,
            activeTransaction := None,
            emitted := emitted s @ [E_retry (qi_id item) (qi_retryCount item + 1) (errorMsg_of e)],
            workers := (workers s)[w := Delaying]\<rparr>) \<and>
     (\<not> qi_retryCount item < qi_maxRetries item \<longrightarrow>
        promises (attempt_rejects w e s) = map (fire_failed (qi_id item) e) (promises s) \<and>
        totalFailed (attempt_rejects w e s) = totalFailed s + 1 \<and>
        queue (attempt_rejects w e s) = (if isShuttingDown s then queue s else tl (queue s)) \<and>
        (\<forall>k < length (promises s).
           p_id (promises s ! k) = qi_id item \<and> p_onFailed (promises s ! k) \<and>
           p_state (promises s ! k) = Pending \<longrightarrow>
           p_state (promises (attempt_rejects w e s) ! k) = Rejected e)) \<and>
     map p_state (promises (run (retry_rounds (retryAttempts cfg) e)
        (step (Submit prf sigs v net tmo now rnd) (new_queue cfg)))) = [Pending] \<and>
     workers (run (retry_rounds (retryAttempts cfg) e)
        (step (Submit prf sigs v net tmo now rnd) (new_queue cfg))) =
       [Awaiting ((submitted_item prf sigs v net now rnd cfg)\<lparr>qi_retryCount := retryAttempts cfg\<rparr>)] \<and>
     map p_state (promises (step (AttemptRejects 0 e) (run (retry_rounds (retryAttempts cfg) e)
        (step (Submit prf sigs v net tmo now rnd) (new_queue cfg))))) = [Rejected e] \<and>
     totalFailed (step (AttemptRejects 0 e) (run (retry_rounds (retryAttempts cfg) e)
        (step (Submit prf sigs v net tmo now rnd) (new_queue cfg)))) = 1"
proof -
  let ?s0 = "step (Submit prf sigs v net tmo now rnd) (new_queue cfg)"
  let ?item = "submitted_item prf sigs v net now rnd cfg"
  have s0: "workers ?s0 = [Awaiting ?item]" "queue ?s0 = []" "\<not> isShuttingDown ?s0"
    "map p_state (promises ?s0) = [Pending]" "totalFailed ?s0 = 0"
    "map p_id (promises ?s0) = [qi_id ?item]" "map p_onFailed (promises ?s0) = [True]"
    by (simp_all add: submit_def processQueue_def loop_iter_def new_queue_def Let_def
        submitted_item_def)
  have i0: "qi_retryCount ?item = 0" "qi_maxRetries ?item = retryAttempts cfg"
    by (simp_all add: submitted_item_def)
  from retry_rounds_run [OF s0(1) s0(2) s0(3) assms(3) i0(1), of "retryAttempts cfg"]
  have r: "workers (run (retry_rounds (retryAttempts cfg) e) ?s0) =
        [Awaiting (?item\<lparr>qi_retryCount := retryAttempts cfg\<rparr>)]"
      "queue (run (retry_rounds (retryAttempts cfg) e) ?s0) = []"
      "promises (run (retry_rounds (retryAttempts cfg) e) ?s0) = promises ?s0"
      "totalFailed (run (retry_rounds (retryAttempts cfg) e) ?s0) = 0"
    using i0 s0 by simp_all
  have last: "map p_state (promises (step (AttemptRejects 0 e)
        (run (retry_rounds (retryAttempts cfg) e) ?s0))) = [Rejected e]"
    "totalFailed (step (AttemptRejects 0 e)
        (run (retry_rounds (retryAttempts cfg) e) ?s0)) = 1"
    using r s0 assms(3) i0
    by (cases "promises ?s0";
        simp add: attempt_rejects_def resume_loop_def loop_iter_def Let_def fire_failed_def
          settle_def)+
  have one: "qi_retryCount item < qi_maxRetries item \<Longrightarrow>
        attempt_rejects w e s =
          s\<lparr>queue := item\<lparr>qi_retryCount := qi_retryCount item + 1\<rparr> # queue s,
            activeTransaction := None,
            emitted := emitted s @ [E_retry (qi_id item) (qi_retryCount item + 1) (errorMsg_of e)],
            workers := (workers s)[w := Delaying]\<rparr>"
    using assms by (simp add: attempt_rejects_def Let_def)
  have two: "\<not> qi_retryCount item < qi_maxRetries item \<Longrightarrow>
        promises (attempt_rejects w e s) = map (fire_failed (qi_id item) e) (promises s) \<and>
        totalFailed (attempt_rejects w e s) = totalFailed s + 1 \<and>
        queue (attempt_rejects w e s) = (if isShuttingDown s then queue s else tl (queue s))"
    using assms
    by (cases "queue s")
       (simp_all add: attempt_rejects_def resume_loop_def loop_iter_def Let_def)
  have three: "\<not> qi_retryCount item < qi_maxRetries item \<Longrightarrow>
       \<forall>k < length (promises s).
           p_id (promises s ! k) = qi_id item \<and> p_onFailed (promises s ! k) \<and>
           p_state (promises s ! k) = Pending \<longrightarrow>
           p_state (promises (attempt_rejects w e s) ! k) = Rejected e"
    using two by (simp add: fire_failed_def settle_def)
  show ?thesis
    using one two three r(1) s0(4) r(3) last by simp
qed

theorem nonce_conflict_retry_witness:
  "0 < length (workers one_submitted) \<and> workers one_submitted ! 0 = Awaiting first_item \<and>
   isNonceConflict (errorMsg_of priority_too_low) \<and>
   qi_retryCount first_item < qi_maxRetries first_item \<and>
   queue (attempt_rejects 0 priority_too_low one_submitted) =
     [first_item\<lparr>qi_retryCount := 1\<rparr>] \<and>
   map p_state (promises (attempt_rejects 0 priority_too_low one_submitted)) = [Pending] \<and>
   totalFailed (attempt_rejects 0 priority_too_low one_submitted) = 0 \<and>
   map p_state (promises (run (retry_rounds (retryAttempts test_config) priority_too_low)
     (step (Submit ''proof'' [''signal''] test_vk Testnet None 1 ''a'') (new_queue test_config)))) =
       [Pending] \<and>
   map p_state (promises (step (AttemptRejects 0 priority_too_low)
     (run (retry_rounds (retryAttempts test_config) priority_too_low)
       (step (Submit ''proof'' [''signal''] test_vk Testnet None 1 ''a'')
         (new_queue test_config))))) = [Rejected priority_too_low]"
proof -
  have h: "0 < length (workers one_submitted)" "workers one_submitted ! 0 = Awaiting first_item"
    "qi_retryCount first_item < qi_maxRetries first_item" "qi_retryCount first_item = 0"
    by (simp_all add: one_submitted_eq first_item_def)
  from nonce_conflict_retry [OF h(1) h(2) priority_too_low_is_nonce_conflict,
      of test_config "''proof''" "[''signal'']" test_vk Testnet None 1 "''a''"]
  show ?thesis
    using h priority_too_low_is_nonce_conflict by (simp add: one_submitted_eq)
qed

text \<open>
  C2. The queue's test for a nonce conflict looks for four phrases in their exact
  spelling, so it misses nonce conflicts: \<open>Stale nonce detected\<close>, which the test of
  src/zkTransactionUtils.ts takes for one, and \<open>nonce too low\<close> and
  \<open>priority is too low\<close> in lower case. When the first attempt of an item fails with
  \<open>Stale nonce detected\<close>, three retries left, the item is not retried: the promise
  is rejected at once, the item is gone from the pending list, the failure is counted
  and no \<open>retry\<close> event is recorded.
\<close>

theorem stale_nonce_is_not_retried:
  "isNonceConflictError stale_nonce \<and>
   \<not> isNonceConflict (errorMsg_of stale_nonce) \<and>
   \<not> isNonceConflict (errorMsg_of (Error ''nonce too low'')) \<and>
   \<not> isNonceConflict (errorMsg_of (Error ''priority is too low'')) \<and>
   workers one_submitted = [Awaiting first_item] \<and>
   qi_retryCount first_item = 0 \<and> qi_maxRetries first_item = 3 \<and>
   map p_state (promises (attempt_rejects 0 stale_nonce one_submitted)) = [Rejected stale_nonce] \<and>
   queue (attempt_rejects 0 stale_nonce one_submitted) = [] \<and>
   workers (attempt_rejects 0 stale_nonce one_submitted) = [] \<and>
   totalFailed (attempt_rejects 0 stale_nonce one_submitted) = 1 \<and>
   emitted (attempt_rejects 0 stale_nonce one_submitted) =
     [E_enqueued ''tx_1_a'' 1, E_processing ''tx_1_a'' 0,
      E_failed_id ''tx_1_a'' stale_nonce, E_failed ''tx_1_a'' stale_nonce]"
  by (simp add: one_submitted_eq first_item_def stale_nonce_def isNonceConflict_def
      isNonceConflictError_def str_defs attempt_rejects_def resume_loop_def loop_iter_def
      fire_failed_def settle_def Let_def)

lemma findIndex_None: "findIndex P xs = None \<longleftrightarrow> (\<forall>x \<in> set xs. \<not> P x)"
  by (induction xs) auto

lemma findIndex_Some:
  "findIndex P xs = Some n \<Longrightarrow> n < length xs \<and> P (xs ! n)"
  by (induction xs arbitrary: n) (auto split: if_splits)

lemma set_inflight: "set (inflight ws) = {item. Awaiting item \<in> set ws}"
proof (induction ws)
  case Nil
  show ?case by (simp add: inflight_def)
next
  case (Cons a ws)
  then show ?case by (cases a) (auto simp: inflight_def)
qed

lemma awaiting_inflight: "w < length ws \<Longrightarrow> ws ! w = Awaiting item \<Longrightarrow> item \<in> set (inflight ws)"
  by (metis (mono_tags, lifting) mem_Collect_eq nth_mem set_inflight)

lemma inflight_update: "set (inflight (ws[w := a])) \<subseteq> set (worker_items a) \<union> set (inflight ws)"
  using set_update_subset_insert [of ws w a] by (cases a) (auto simp: set_inflight)

lemma inflight_remove: "set (inflight (take w ws @ drop (Suc w) ws)) \<subseteq> set (inflight ws)"
  by (auto simp: set_inflight dest: in_set_takeD in_set_dropD)

lemma set_remove_nth: "set (take n xs @ drop (Suc n) xs) \<subseteq> set xs"
  by (auto dest: in_set_takeD in_set_dropD)

lemma promises_resume_loop [simp]: "promises (resume_loop w s) = promises s"
  by (cases "queue s") (simp_all add: resume_loop_def loop_iter_def)

lemma promises_processQueue [simp]: "promises (processQueue s) = promises s"
  by (cases "queue s") (simp_all add: processQueue_def loop_iter_def)

lemma live_resume_loop: "live_ids (resume_loop w s) \<subseteq> live_ids s"
proof (cases "queue s")
  case Nil
  then show ?thesis
    using inflight_remove [of w "workers s"]
    by (auto simp: resume_loop_def loop_iter_def live_ids_def)
next
  case (Cons item rest)
  then show ?thesis
    using inflight_remove [of w "workers s"] inflight_update [of "workers s" w "Awaiting item"]
    by (auto simp: resume_loop_def loop_iter_def live_ids_def)
qed

lemma live_resume_loop_upd:
  "queue s' = queue s \<Longrightarrow> workers s' = workers s \<Longrightarrow> live_ids (resume_loop w s') \<subseteq> live_ids s"
  using live_resume_loop [of w s'] by (simp add: live_ids_def)

lemma live_processQueue: "live_ids (processQueue s) \<subseteq> live_ids s"
  by (cases "queue s") (auto simp: processQueue_def loop_iter_def live_ids_def inflight_def)

lemma live_submit:
  "live_ids (snd (submit prf sigs v net tmo now rnd s)) \<subseteq> live_ids s \<union> {mk_id now rnd}"
proof (cases "isShuttingDown s")
  case True then show ?thesis by (auto simp: submit_def)
next
  case False
  let ?s1 = "s\<lparr>queue := queue s @ [\<lparr>qi_id = mk_id now rnd, qi_proof = prf, qi_publicSignals = sigs,
      qi_vk = v, qi_network = net, qi_timestamp = now, qi_retryCount = 0,
      qi_maxRetries = retryAttempts (config s)\<rparr>],
      emitted := emitted s @ [E_enqueued (mk_id now rnd) (length (queue s) + 1)]\<rparr>"
  have "live_ids (processQueue ?s1) \<subseteq> live_ids ?s1" by (rule live_processQueue)
  moreover have "live_ids ?s1 \<subseteq> live_ids s \<union> {mk_id now rnd}" by (auto simp: live_ids_def)
  moreover have "live_ids (snd (submit prf sigs v net tmo now rnd s)) = live_ids (processQueue ?s1)"
    using False by (simp add: submit_def Let_def live_ids_def)
  ultimately show ?thesis by blast
qed

lemma live_attempt_resolves: "live_ids (attempt_resolves w r now s) \<subseteq> live_ids s"
proof (cases "w < length (workers s)")
  case False then show ?thesis by (simp add: attempt_resolves_def)
next
  case True
  show ?thesis
  proof (cases "workers s ! w")
    case Delaying then show ?thesis using True by (simp add: attempt_resolves_def)
  next
    case (Awaiting item)
    then show ?thesis
      using True by (simp add: attempt_resolves_def live_resume_loop_upd)
  qed
qed

lemma live_attempt_rejects: "live_ids (attempt_rejects w e s) \<subseteq> live_ids s"
proof (cases "w < length (workers s)")
  case False then show ?thesis by (simp add: attempt_rejects_def)
next
  case True
  show ?thesis
  proof (cases "workers s ! w")
    case Delaying then show ?thesis using True by (simp add: attempt_rejects_def)
  next
    case (Awaiting item)
    then have i: "item \<in> set (inflight (workers s))" using True by (simp add: awaiting_inflight)
    show ?thesis
    proof (cases "isNonceConflict (errorMsg_of e) \<and> qi_retryCount item < qi_maxRetries item")
      case True
      then have "attempt_rejects w e s =
          s\<lparr>queue := item\<lparr>qi_retryCount := qi_retryCount item + 1\<rparr> # queue s,
            activeTransaction := None,
            emitted := emitted s @ [E_retry (qi_id item) (qi_retryCount item + 1) (errorMsg_of e)],
            workers := (workers s)[w := Delaying]\<rparr>"
        using \<open>w < length (workers s)\<close> Awaiting by (simp add: attempt_rejects_def Let_def)
      then show ?thesis
        using i inflight_update [of "workers s" w Delaying] by (auto simp: live_ids_def)
    next
      case False
      then have "attempt_rejects w e s =
          resume_loop w
            (s\<lparr>activeTransaction := None, totalFailed := totalFailed s + 1,
               promises := map (fire_failed (qi_id item) e) (promises s),
               emitted := emitted s @ [E_failed_id (qi_id item) e, E_failed (qi_id item) e]\<rparr>)"
        using \<open>w < length (workers s)\<close> Awaiting by (auto simp: attempt_rejects_def Let_def)
      then show ?thesis by (simp add: live_resume_loop_upd)
    qed
  qed
qed

lemma live_delay_elapses: "live_ids (delay_elapses w s) \<subseteq> live_ids s"
  using live_resume_loop [of w s] by (auto simp: delay_elapses_def split: worker.splits)

lemma live_timer_fires: "live_ids (timer_fires k txt s) \<subseteq> live_ids s"
  using set_remove_nth [of _ "queue s"]
  by (auto simp: timer_fires_def Let_def live_ids_def split: option.splits)

lemma live_step: "live_ids (step e s) \<subseteq> live_ids s \<union> set (event_ids e)"
proof (cases e)
  case (Submit pf sigs v net tmo now rnd)
  then show ?thesis using live_submit [of pf sigs v net tmo now rnd s] by simp
next
  case (AttemptResolves w r now)
  then show ?thesis using live_attempt_resolves [of w r now s] by auto
next
  case (AttemptRejects w err)
  then show ?thesis using live_attempt_rejects [of w err s] by auto
next
  case (DelayElapses w)
  then show ?thesis using live_delay_elapses [of w s] by auto
next
  case (TimerFires k tx)
  then show ?thesis using live_timer_fires [of k tx s] by auto
next
  case ClearQueue
  then show ?thesis by (auto simp: clearQueue_def live_ids_def Let_def)
next
  case Shutdown
  then show ?thesis by (auto simp: shutdown_def shutdown_finish_def live_ids_def Let_def)
next
  case (ShutdownWakes k)
  then show ?thesis by (auto simp: shutdown_wakes_def shutdown_finish_def live_ids_def Let_def)
next
  case Pause
  then show ?thesis by (auto simp: pause_def live_ids_def)
next
  case Resume
  then show ?thesis using live_processQueue [of "s\<lparr>emitted := emitted s @ [E_resumed]\<rparr>"]
    by (auto simp: resume_def live_ids_def)
qed

lemma settles_resume_loop [simp]:
  "filter (settles i) (emitted (resume_loop w s)) = filter (settles i) (emitted s)"
  by (cases "queue s") (simp_all add: resume_loop_def loop_iter_def)

lemma settles_processQueue [simp]:
  "filter (settles i) (emitted (processQueue s)) = filter (settles i) (emitted s)"
  by (cases "queue s") (simp_all add: processQueue_def loop_iter_def)

lemma kept_submit:
  assumes "k < length (promises s)" "p_id (promises s ! k) = i"
  shows "kept i k s (snd (submit pf sigs v net tmo now rnd s))"
  using assms by (simp add: kept_def submit_def Let_def nth_append)

lemma kept_attempt_resolves:
  assumes "i \<notin> live_ids s" "k < length (promises s)" "p_id (promises s ! k) = i"
  shows "kept i k s (attempt_resolves w r now s)"
proof (cases "w < length (workers s)")
  case False then show ?thesis using assms by (simp add: kept_def attempt_resolves_def)
next
  case True
  show ?thesis
  proof (cases "workers s ! w")
    case Delaying then show ?thesis using True assms by (simp add: kept_def attempt_resolves_def)
  next
    case (Awaiting item)
    then have "qi_id item \<in> live_ids s"
      using True awaiting_inflight [of w "workers s" item] by (simp add: live_ids_def)
    then have "qi_id item \<noteq> i" using assms(1) by blast
    then show ?thesis
      using True Awaiting assms
      by (auto simp: kept_def attempt_resolves_def fire_completed_def)
  qed
qed

lemma kept_attempt_rejects:
  assumes "i \<notin> live_ids s" "k < length (promises s)" "p_id (promises s ! k) = i"
  shows "kept i k s (attempt_rejects w e s)"
proof (cases "w < length (workers s)")
  case False then show ?thesis using assms by (simp add: kept_def attempt_rejects_def)
next
  case True
  show ?thesis
  proof (cases "workers s ! w")
    case Delaying then show ?thesis using True assms by (simp add: kept_def attempt_rejects_def)
  next
    case (Awaiting item)
    then have "qi_id item \<in> live_ids s"
      using True awaiting_inflight [of w "workers s" item] by (simp add: live_ids_def)
    then have "qi_id item \<noteq> i" using assms(1) by blast
    then show ?thesis
      using True Awaiting assms
      by (auto simp: kept_def attempt_rejects_def fire_failed_def Let_def)
  qed
qed

lemma kept_delay_elapses:
  assumes "k < length (promises s)" "p_id (promises s ! k) = i"
  shows "kept i k s (delay_elapses w s)"
  using assms by (auto simp: kept_def delay_elapses_def split: worker.splits)

lemma kept_timer_fires:
  assumes "i \<notin> live_ids s" "k < length (promises s)" "p_id (promises s ! k) = i"
  shows "kept i k s (timer_fires j txt s)"
proof (cases "j = k")
  case True
  have "findIndex (\<lambda>x. qi_id x = i) (queue s) = None"
    using assms(1) by (auto simp: findIndex_None live_ids_def)
  then show ?thesis using True assms by (simp add: kept_def timer_fires_def Let_def)
next
  case False
  then show ?thesis using assms
    by (auto simp: kept_def timer_fires_def Let_def split: option.splits)
qed

lemma kept_step:
  assumes "i \<notin> live_ids s" "k < length (promises s)" "p_id (promises s ! k) = i"
  shows "kept i k s (step e s)"
proof (cases e)
  case (Submit pf sigs v net tmo now rnd)
  then show ?thesis using kept_submit [OF assms(2,3)] by simp
next
  case (AttemptResolves w r now)
  then show ?thesis using kept_attempt_resolves [OF assms] by simp
next
  case (AttemptRejects w err)
  then show ?thesis using kept_attempt_rejects [OF assms] by simp
next
  case (DelayElapses w)
  then show ?thesis using kept_delay_elapses [OF assms(2,3)] by simp
next
  case (TimerFires j tx)
  then show ?thesis using kept_timer_fires [OF assms] by simp
next
  case ClearQueue
  then show ?thesis using assms by (simp add: kept_def clearQueue_def Let_def)
next
  case Shutdown
  then show ?thesis using assms
    by (simp add: kept_def shutdown_def shutdown_finish_def removeAllListeners_def Let_def)
next
  case (ShutdownWakes j)
  then show ?thesis using assms
    by (simp add: kept_def shutdown_wakes_def shutdown_finish_def removeAllListeners_def)
next
  case Pause
  then show ?thesis using assms by (simp add: kept_def pause_def)
next
  case Resume
  then show ?thesis using assms by (simp add: kept_def resume_def)
qed

lemma kept_run:
  assumes "i \<notin> set (submit_ids es)"
  shows "i \<notin> live_ids s \<Longrightarrow> k < length (promises s) \<Longrightarrow> p_id (promises s ! k) = i \<Longrightarrow>
         kept i k s (run es s) \<and> i \<notin> live_ids (run es s)"
  using assms
proof (induction es arbitrary: s)
  case Nil
  then show ?case by (simp add: kept_def)
next
  case (Cons e es)
  have k1: "kept i k s (step e s)"
    using Cons.prems(1,2,3) by (rule kept_step)
  have l1: "i \<notin> live_ids (step e s)"
    using live_step [of e s] Cons.prems(1,4) by (auto simp: submit_ids_def)
  have "i \<notin> set (submit_ids es)"
    using Cons.prems(4) by (simp add: submit_ids_def)
  with Cons.IH [of "step e s"] k1 l1
  have "kept i k (step e s) (run es (step e s)) \<and> i \<notin> live_ids (run es (step e s))"
    by (simp add: kept_def)
  then show ?case using k1 by (simp add: kept_def)
qed

text \<open>
  C10. Take a promise that is pending and whose item is not in flight (it is waiting in
  the pending list, or nowhere). After \<open>clearQueue\<close>, whatever happens next short of a
  submission that draws the same identifier again, the promise stays pending: no
  \<open>completed\<close> or \<open>failed\<close> event is emitted for its item, and when its timer expires
  the item is not found, so the pending list is left alone and nothing is rejected.
\<close>

theorem cleared_item_never_settles:
  assumes "k < length (promises s)" "p_state (promises s ! k) = Pending"
    "p_id (promises s ! k) \<notin> qi_id ` set (inflight (workers s))"
    "p_id (promises s ! k) \<notin> set (submit_ids es)"
  shows "p_state (promises (run es (snd (clearQueue s))) ! k) = Pending \<and>
    filter (settles (p_id (promises s ! k))) (emitted (run es (snd (clearQueue s)))) =
      filter (settles (p_id (promises s ! k))) (emitted s) \<and>
    p_state (promises (timer_fires k txt (run es (snd (clearQueue s)))) ! k) = Pending \<and>
    queue (timer_fires k txt (run es (snd (clearQueue s)))) = queue (run es (snd (clearQueue s)))"
proof -
  let ?i = "p_id (promises s ! k)"
  let ?c = "snd (clearQueue s)"
  have c: "?i \<notin> live_ids ?c" "k < length (promises ?c)" "p_id (promises ?c ! k) = ?i"
    "p_state (promises ?c ! k) = Pending"
    "filter (settles ?i) (emitted ?c) = filter (settles ?i) (emitted s)"
    using assms by (simp_all add: clearQueue_def live_ids_def Let_def)
  from kept_run [OF assms(4) c(1) c(2) c(3)]
  have r: "kept ?i k ?c (run es ?c)" "?i \<notin> live_ids (run es ?c)" by simp_all
  have f: "findIndex (\<lambda>x. qi_id x = ?i) (queue (run es ?c)) = None"
    unfolding findIndex_None using r(2) unfolding live_ids_def by (metis UnI1 imageI)
  have t: "p_state (promises (timer_fires k txt (run es ?c)) ! k) = Pending \<and>
    queue (timer_fires k txt (run es ?c)) = queue (run es ?c)"
    using r(1) f c(4) by (simp add: timer_fires_def kept_def Let_def)
  show ?thesis using r(1) c(4,5) t by (simp add: kept_def)
qed

theorem cleared_item_never_settles_witness:
  "1 < length (promises busy_queue) \<and> p_state (promises busy_queue ! 1) = Pending \<and>
   p_id (promises busy_queue ! 1) = ''tx_2_b'' \<and>
   ''tx_2_b'' \<in> qi_id ` set (queue busy_queue) \<and>
   ''tx_2_b'' \<notin> qi_id ` set (inflight (workers busy_queue)) \<and>
   ''tx_2_b'' \<notin> set (submit_ids [AttemptResolves 0 test_result 9, TimerFires 1 ''5000'',
      Submit ''proof'' [''signal''] test_vk Testnet None 5 ''e'']) \<and>
   p_state (promises (run [AttemptResolves 0 test_result 9, TimerFires 1 ''5000'',
      Submit ''proof'' [''signal''] test_vk Testnet None 5 ''e''] (snd (clearQueue busy_queue))) ! 1) =
     Pending"
proof -
  have h: "1 < length (promises busy_queue)" "p_state (promises busy_queue ! 1) = Pending"
    "p_id (promises busy_queue ! 1) = ''tx_2_b''"
    "''tx_2_b'' \<in> qi_id ` set (queue busy_queue)"
    "''tx_2_b'' \<notin> qi_id ` set (inflight (workers busy_queue))"
    "''tx_2_b'' \<notin> set (submit_ids [AttemptResolves 0 test_result 9, TimerFires 1 ''5000'',
      Submit ''proof'' [''signal''] test_vk Testnet None 5 ''e''])"
    by (simp_all add: busy_queue_eq first_item_def inflight_def submit_ids_def mk_id_def
        digits.simps)
  from cleared_item_never_settles [of 1 busy_queue
      "[AttemptResolves 0 test_result 9, TimerFires 1 ''5000'',
        Submit ''proof'' [''signal''] test_vk Testnet None 5 ''e'']"]
  show ?thesis using h by simp
qed

text \<open>
  C5 (as the code has it). \<open>submit\<close> arms a timer with the number
  \<open>timeout || this.config.timeout\<close>, the override or, when that is absent or zero, the
  configured default; the runtime sets the timer to this delay when it lies between 1
  and \<open>2^31 - 1\<close> milliseconds and to 1 millisecond otherwise. When the timer expires
  while an item with the promise's identifier is in the pending list, the first such
  item is removed and the promise is rejected with the timeout error (if it is still
  pending); the workers are not touched. When it expires while no such item is pending,
  for instance because the attempt is in flight, only the timer is spent and the attempt
  goes on. Then, if the attempt succeeds, the listener resolves the promise with the
  result; if it fails for good, the listener rejects the promise with the error; and if
  it fails with a retry left, the item goes back to the pending list and the promise
  stays as it is, without a timer, so that once the pending list is cleared it stays
  pending whatever follows, short of a submission that draws the same identifier again.
\<close>

theorem timer_rejects_only_pending_items:
  assumes "k < length (promises s)" "p_timerArmed (promises s ! k)"
    "printed (p_timeoutMs (promises s ! k)) txt"
  shows
    "(p_id (promises s ! k) \<in> qi_id ` set (queue s) \<longrightarrow>
        (\<exists>n < length (queue s).
           qi_id (queue s ! n) = p_id (promises s ! k) \<and>
           queue (timer_fires k txt s) = take n (queue s) @ drop (Suc n) (queue s)) \<and>
        p_state (promises (timer_fires k txt s) ! k) =
          settle (Rejected (timeout_error txt)) (p_state (promises s ! k)) \<and>
        workers (timer_fires k txt s) = workers s) \<and>
     (p_timeoutMs (promises s ! k) < 10 ^ 21 \<longrightarrow> txt = digits (p_timeoutMs (promises s ! k))) \<and>
     (p_id (promises s ! k) \<notin> qi_id ` set (queue s) \<longrightarrow>
        timer_fires k txt s =
          s\<lparr>promises := (promises s)[k := (promises s ! k)\<lparr>p_timerArmed := False\<rparr>]\<rparr>) \<and>
     (p_id (promises s ! k) \<notin> qi_id ` set (queue s) \<and>
      w < length (workers s) \<and> workers s ! w = Awaiting item \<and>
      qi_id item = p_id (promises s ! k) \<longrightarrow>
        (p_onCompleted (promises s ! k) \<longrightarrow>
           p_state (promises (attempt_resolves w r now (timer_fires k txt s)) ! k) =
             settle (Resolved r) (p_state (promises s ! k))) \<and>
        (\<not> (isNonceConflict (errorMsg_of e) \<and> qi_retryCount item < qi_maxRetries item) \<and>
         p_onFailed (promises s ! k) \<longrightarrow>
           p_state (promises (attempt_rejects w e (timer_fires k txt s)) ! k) =
             settle (Rejected e) (p_state (promises s ! k))) \<and>
        (isNonceConflict (errorMsg_of e) \<and> qi_retryCount item < qi_maxRetries item \<longrightarrow>
           promises (attempt_rejects w e (timer_fires k txt s)) =
             (promises s)[k := (promises s ! k)\<lparr>p_timerArmed := False\<rparr>] \<and>
           queue (attempt_rejects w e (timer_fires k txt s)) =
             item\<lparr>qi_retryCount := qi_retryCount item + 1\<rparr> # queue s \<and>
           (p_state (promises s ! k) = Pending \<and>
            p_id (promises s ! k) \<notin> qi_id ` set (inflight ((workers s)[w := Delaying])) \<and>
            p_id (promises s ! k) \<notin> set (submit_ids es) \<longrightarrow>
              p_state (promises (run es
                (snd (clearQueue (attempt_rejects w e (timer_fires k txt s))))) ! k) = Pending))) \<and>
     (\<not> isShuttingDown s \<longrightarrow>
        map p_timeoutMs (promises (snd (submit pf sigs v net tmo t rnd s))) =
          map p_timeoutMs (promises s) @ [timeoutMs tmo (config s)] \<and>
        map p_timerDelay (promises (snd (submit pf sigs v net tmo t rnd s))) =
          map p_timerDelay (promises s) @ [timer_delay (timeoutMs tmo (config s))]) \<and>
     timeoutMs None cfg = timeout cfg \<and> timeoutMs (Some 0) cfg = timeout cfg \<and>
     (0 < ms \<longrightarrow> timeoutMs (Some ms) cfg = ms) \<and>
     (1 \<le> ms \<and> ms \<le> 2147483647 \<longrightarrow> timer_delay ms = ms) \<and>
     (ms = 0 \<or> 2147483647 < ms \<longrightarrow> timer_delay ms = 1)"
proof -
  let ?i = "p_id (promises s ! k)"
  let ?spent = "(promises s)[k := (promises s ! k)\<lparr>p_timerArmed := False\<rparr>]"
  have found: "?i \<in> qi_id ` set (queue s) \<Longrightarrow>
        (\<exists>n < length (queue s).
           qi_id (queue s ! n) = ?i \<and>
           queue (timer_fires k txt s) = take n (queue s) @ drop (Suc n) (queue s)) \<and>
        p_state (promises (timer_fires k txt s) ! k) =
          settle (Rejected (timeout_error txt)) (p_state (promises s ! k)) \<and>
        workers (timer_fires k txt s) = workers s"
  proof -
    assume "?i \<in> qi_id ` set (queue s)"
    then have "findIndex (\<lambda>x. qi_id x = ?i) (queue s) \<noteq> None"
      unfolding findIndex_None by auto
    then obtain n where n: "findIndex (\<lambda>x. qi_id x = ?i) (queue s) = Some n" by blast
    from findIndex_Some [OF n] have "n < length (queue s)" "qi_id (queue s ! n) = ?i" by simp_all
    then show ?thesis
      using assms n by (auto simp: timer_fires_def Let_def)
  qed
  have shown: "p_timeoutMs (promises s ! k) < 10 ^ 21 \<Longrightarrow> txt = digits (p_timeoutMs (promises s ! k))"
    using assms(3) by (simp add: printed_def)
  have absent: "?i \<notin> qi_id ` set (queue s) \<Longrightarrow> timer_fires k txt s = s\<lparr>promises := ?spent\<rparr>"
  proof -
    assume "?i \<notin> qi_id ` set (queue s)"
    then have "findIndex (\<lambda>x. qi_id x = ?i) (queue s) = None"
      unfolding findIndex_None by (metis imageI)
    then show ?thesis using assms by (simp add: timer_fires_def Let_def)
  qed
  have won: "?i \<notin> qi_id ` set (queue s) \<Longrightarrow> w < length (workers s) \<Longrightarrow>
      workers s ! w = Awaiting item \<Longrightarrow> qi_id item = ?i \<Longrightarrow> p_onCompleted (promises s ! k) \<Longrightarrow>
      p_state (promises (attempt_resolves w r now (timer_fires k txt s)) ! k) =
             settle (Resolved r) (p_state (promises s ! k))"
    using assms by (simp add: absent attempt_resolves_def fire_completed_def)
  have lost: "?i \<notin> qi_id ` set (queue s) \<Longrightarrow> w < length (workers s) \<Longrightarrow>
      workers s ! w = Awaiting item \<Longrightarrow> qi_id item = ?i \<Longrightarrow>
      \<not> (isNonceConflict (errorMsg_of e) \<and> qi_retryCount item < qi_maxRetries item) \<Longrightarrow>
      p_onFailed (promises s ! k) \<Longrightarrow>
      p_state (promises (attempt_rejects w e (timer_fires k txt s)) ! k) =
             settle (Rejected e) (p_state (promises s ! k))"
    using assms by (auto simp: absent attempt_rejects_def fire_failed_def Let_def)
  have again: "?i \<notin> qi_id ` set (queue s) \<Longrightarrow> w < length (workers s) \<Longrightarrow>
      workers s ! w = Awaiting item \<Longrightarrow>
      isNonceConflict (errorMsg_of e) \<and> qi_retryCount item < qi_maxRetries item \<Longrightarrow>
      attempt_rejects w e (timer_fires k txt s) =
        s\<lparr>queue := item\<lparr>qi_retryCount := qi_retryCount item + 1\<rparr> # queue s,
          activeTransaction := None,
          emitted := emitted s @ [E_retry (qi_id item) (qi_retryCount item + 1) (errorMsg_of e)],
          workers := (workers s)[w := Delaying],
          promises := ?spent\<rparr>"
    by (simp add: absent attempt_rejects_def Let_def)
  have cleared: "p_state (promises (run es
        (snd (clearQueue (attempt_rejects w e (timer_fires k txt s))))) ! k) = Pending"
    if h: "?i \<notin> qi_id ` set (queue s)" "w < length (workers s)" "workers s ! w = Awaiting item"
      "isNonceConflict (errorMsg_of e) \<and> qi_retryCount item < qi_maxRetries item"
      "p_state (promises s ! k) = Pending"
      "?i \<notin> qi_id ` set (inflight ((workers s)[w := Delaying]))"
      "?i \<notin> set (submit_ids es)"
  proof -
    let ?u = "snd (clearQueue (attempt_rejects w e (timer_fires k txt s)))"
    have u: "?i \<notin> live_ids ?u" "k < length (promises ?u)" "p_id (promises ?u ! k) = ?i"
      "p_state (promises ?u ! k) = Pending"
      using h(5,6) assms(1)
      by (simp_all add: again [OF h(1) h(2) h(3) h(4)] clearQueue_def live_ids_def Let_def)
    from kept_run [OF h(7) u(1) u(2) u(3)] u(4) show ?thesis
      by (simp add: kept_def)
  qed
  have sub: "\<not> isShuttingDown s \<Longrightarrow>
        map p_timeoutMs (promises (snd (submit pf sigs v net tmo t rnd s))) =
          map p_timeoutMs (promises s) @ [timeoutMs tmo (config s)] \<and>
        map p_timerDelay (promises (snd (submit pf sigs v net tmo t rnd s))) =
          map p_timerDelay (promises s) @ [timer_delay (timeoutMs tmo (config s))]"
    by (simp add: submit_def Let_def)
  have retry: "?i \<notin> qi_id ` set (queue s) \<Longrightarrow> w < length (workers s) \<Longrightarrow>
      workers s ! w = Awaiting item \<Longrightarrow>
      isNonceConflict (errorMsg_of e) \<and> qi_retryCount item < qi_maxRetries item \<Longrightarrow>
      promises (attempt_rejects w e (timer_fires k txt s)) = ?spent \<and>
      queue (attempt_rejects w e (timer_fires k txt s)) =
        item\<lparr>qi_retryCount := qi_retryCount item + 1\<rparr> # queue s"
    by (simp add: again)
  show ?thesis
    using found shown absent won lost retry cleared sub
    by (simp add: timeoutMs_def timer_delay_def TIMEOUT_MAX_def)
qed

theorem timer_rejects_only_pending_items_witness:
  "1 < length (promises busy_queue) \<and> p_timerArmed (promises busy_queue ! 1) \<and>
   printed (p_timeoutMs (promises busy_queue ! 1)) ''5000'' \<and>
   p_timerDelay (promises busy_queue ! 1) = 5000 \<and>
   p_id (promises busy_queue ! 1) \<in> qi_id ` set (queue busy_queue) \<and>
   p_state (promises (timer_fires 1 ''5000'' busy_queue) ! 1) =
     Rejected (Error ''Transaction timeout after 5000ms'') \<and>
   map qi_id (queue (timer_fires 1 ''5000'' busy_queue)) = [''tx_3_c'', ''tx_4_d''] \<and>
   workers (timer_fires 1 ''5000'' busy_queue) = [Awaiting first_item] \<and>
   0 < length (promises busy_queue) \<and> p_timerArmed (promises busy_queue ! 0) \<and>
   p_id (promises busy_queue ! 0) \<notin> qi_id ` set (queue busy_queue) \<and>
   p_state (promises (attempt_resolves 0 test_result 9 (timer_fires 0 ''5000'' busy_queue)) ! 0) =
     Resolved test_result \<and>
   p_state (promises (attempt_rejects 0 (Error ''Test error'')
      (timer_fires 0 ''5000'' busy_queue)) ! 0) = Rejected (Error ''Test error'') \<and>
   isNonceConflict (errorMsg_of priority_too_low) \<and>
   p_state (promises (run [DelayElapses 0, Submit ''proof'' [''signal''] test_vk Testnet None 5 ''e'']
      (snd (clearQueue (attempt_rejects 0 priority_too_low
         (timer_fires 0 ''5000'' busy_queue))))) ! 0) = Pending"
proof -
  have h1: "1 < length (promises busy_queue)" "p_timerArmed (promises busy_queue ! 1)"
    "printed (p_timeoutMs (promises busy_queue ! 1)) ''5000''"
    "p_id (promises busy_queue ! 1) \<in> qi_id ` set (queue busy_queue)"
    "p_timerDelay (promises busy_queue ! 1) = 5000"
    by (simp_all add: busy_queue_eq first_item_def printed_def digits.simps)
  have h0: "0 < length (promises busy_queue)" "p_timerArmed (promises busy_queue ! 0)"
    "printed (p_timeoutMs (promises busy_queue ! 0)) ''5000''"
    "p_id (promises busy_queue ! 0) \<notin> qi_id ` set (queue busy_queue)"
    "0 < length (workers busy_queue)" "workers busy_queue ! 0 = Awaiting first_item"
    "qi_id first_item = p_id (promises busy_queue ! 0)" "p_onCompleted (promises busy_queue ! 0)"
    "p_onFailed (promises busy_queue ! 0)" "p_state (promises busy_queue ! 0) = Pending"
    "qi_retryCount first_item < qi_maxRetries first_item"
    "p_id (promises busy_queue ! 0) \<notin> qi_id ` set (inflight ((workers busy_queue)[0 := Delaying]))"
    "p_id (promises busy_queue ! 0) \<notin>
       set (submit_ids [DelayElapses 0, Submit ''proof'' [''signal''] test_vk Testnet None 5 ''e''])"
    by (simp_all add: busy_queue_eq first_item_def printed_def digits.simps inflight_def
        submit_ids_def mk_id_def)
  have n: "\<not> isNonceConflict (errorMsg_of (Error ''Test error''))"
    by (simp add: isNonceConflict_def errorMsg_of_def)
  have a: "p_state (promises (timer_fires 1 ''5000'' busy_queue) ! 1) =
      settle (Rejected (timeout_error ''5000'')) (p_state (promises busy_queue ! 1))"
    "workers (timer_fires 1 ''5000'' busy_queue) = workers busy_queue"
    using timer_rejects_only_pending_items [OF h1(1) h1(2) h1(3)] h1(4) by blast+
  note t0 = timer_rejects_only_pending_items [OF h0(1) h0(2) h0(3)]
  have b: "p_state (promises (attempt_resolves 0 test_result 9
        (timer_fires 0 ''5000'' busy_queue)) ! 0) =
      settle (Resolved test_result) (p_state (promises busy_queue ! 0))"
    using t0 [of 0 first_item test_result 9] h0 by blast
  have c: "p_state (promises (attempt_rejects 0 (Error ''Test error'')
        (timer_fires 0 ''5000'' busy_queue)) ! 0) =
      settle (Rejected (Error ''Test error'')) (p_state (promises busy_queue ! 0))"
    using t0 [of 0 first_item _ _ "Error ''Test error''"] h0 n by blast
  have d: "p_state (promises (run [DelayElapses 0, Submit ''proof'' [''signal''] test_vk Testnet None 5 ''e'']
      (snd (clearQueue (attempt_rejects 0 priority_too_low
         (timer_fires 0 ''5000'' busy_queue))))) ! 0) = Pending"
    using t0 [of 0 first_item _ _ priority_too_low
        "[DelayElapses 0, Submit ''proof'' [''signal''] test_vk Testnet None 5 ''e'']"]
      h0 priority_too_low_is_nonce_conflict by blast
  have q: "map qi_id (queue (timer_fires 1 ''5000'' busy_queue)) = [''tx_3_c'', ''tx_4_d'']"
    by (simp add: busy_queue_eq first_item_def timer_fires_def printed_def digits.simps Let_def)
  show ?thesis
    using h1 h0 q d priority_too_low_is_nonce_conflict unfolding a b c
    by (simp add: busy_queue_eq settle_def timeout_error_def)
qed

text \<open>
  The timer of an item in flight expires: the promise is not rejected, the attempt goes
  on, and when it succeeds the caller receives its result.
\<close>

theorem timer_of_item_in_flight_counterexample:
  "workers one_submitted = [Awaiting first_item] \<and>
   map p_timerArmed (promises one_submitted) = [True] \<and>
   map p_timeoutMs (promises one_submitted) = [5000] \<and>
   map p_state (promises (timer_fires 0 ''5000'' one_submitted)) = [Pending] \<and>
   map p_timerArmed (promises (timer_fires 0 ''5000'' one_submitted)) = [False] \<and>
   workers (timer_fires 0 ''5000'' one_submitted) = [Awaiting first_item] \<and>
   map p_state (promises (attempt_resolves 0 test_result 9
      (timer_fires 0 ''5000'' one_submitted))) = [Resolved test_result]"
  by (simp add: one_submitted_eq first_item_def timer_fires_def attempt_resolves_def
      resume_loop_def loop_iter_def fire_completed_def settle_def printed_def digits.simps
      Let_def)

text \<open>
  C4 (as the code has it). While the session is absent or not connected, the handler of
  POST /verify-score answers a valid request with status 503 and leaves the server,
  and so the queue, as it is. The queue does not look at the connection: \<open>submit\<close> on a
  queue that is not shutting down enqueues, and on an idle queue starts the attempt at
  once. The submitter then throws \<open>zkVerify session not available\<close>, which the queue
  does not take for a nonce conflict, so the item fails on this first attempt.
\<close>

theorem not_connected_refused_by_handler_not_by_queue:
  "(\<not> connected srv \<and> validateProofAndSignals pf sigs = None \<longrightarrow>
      (\<exists>r. fst (verify_score pf sigs v net t rnd srv) = Inl r \<and> reply_status r = 503) \<and>
      snd (verify_score pf sigs v net t rnd srv) = srv) \<and>
   (\<not> isShuttingDown q \<longrightarrow>
      fst (submit pf sigs v net tmo t rnd q) = Inr (length (promises q)) \<and>
      enqueued_ids (emitted (snd (submit pf sigs v net tmo t rnd q))) =
        enqueued_ids (emitted q) @ [mk_id t rnd] \<and>
      (\<not> isProcessing q \<and> queue q = [] \<longrightarrow>
         workers (snd (submit pf sigs v net tmo t rnd q)) =
           workers q @ [Awaiting (submitted_item pf sigs v net t rnd (config q))])) \<and>
   (\<not> connected srv \<longrightarrow> submitProofTransaction srv remote = Inl session_unavailable) \<and>
   \<not> isNonceConflict (errorMsg_of session_unavailable) \<and>
   (w < length (workers q) \<and> workers q ! w = Awaiting item \<longrightarrow>
      totalFailed (attempt_rejects w session_unavailable q) = totalFailed q + 1 \<and>
      promises (attempt_rejects w session_unavailable q) =
        map (fire_failed (qi_id item) session_unavailable) (promises q))"
proof -
  have n: "\<not> isNonceConflict (errorMsg_of session_unavailable)"
    by (simp add: session_unavailable_def isNonceConflict_def errorMsg_of_def)
  have h: "\<not> connected srv \<Longrightarrow> validateProofAndSignals pf sigs = None \<Longrightarrow>
      (\<exists>r. fst (verify_score pf sigs v net t rnd srv) = Inl r \<and> reply_status r = 503) \<and>
      snd (verify_score pf sigs v net t rnd srv) = srv"
    by (cases "transactionQueue srv") (auto simp: verify_score_def)
  have e: "\<not> isShuttingDown q \<Longrightarrow>
      fst (submit pf sigs v net tmo t rnd q) = Inr (length (promises q)) \<and>
      enqueued_ids (emitted (snd (submit pf sigs v net tmo t rnd q))) =
        enqueued_ids (emitted q) @ [mk_id t rnd]"
    by (cases "queue q")
       (simp_all add: submit_def processQueue_def loop_iter_def Let_def enqueued_ids_def)
  have a: "\<not> isShuttingDown q \<Longrightarrow> \<not> isProcessing q \<Longrightarrow> queue q = [] \<Longrightarrow>
         workers (snd (submit pf sigs v net tmo t rnd q)) =
           workers q @ [Awaiting (submitted_item pf sigs v net t rnd (config q))]"
    by (simp add: submit_def processQueue_def loop_iter_def Let_def submitted_item_def)
  have f: "w < length (workers q) \<Longrightarrow> workers q ! w = Awaiting item \<Longrightarrow>
      totalFailed (attempt_rejects w session_unavailable q) = totalFailed q + 1 \<and>
      promises (attempt_rejects w session_unavailable q) =
        map (fire_failed (qi_id item) session_unavailable) (promises q)"
    using n by (cases "queue q")
      (simp_all add: attempt_rejects_def resume_loop_def loop_iter_def Let_def)
  show ?thesis
    using n h e a f by (simp add: submitProofTransaction_def)
qed

theorem not_connected_refused_by_handler_not_by_queue_witness:
  "\<not> connected srv0 \<and> validateProofAndSignals ''proof'' [''signal''] = None \<and>
   transactionQueue srv0 \<noteq> None \<and>
   fst (verify_score ''proof'' [''signal''] test_vk Testnet 1 ''a'' srv0) =
     Inl (Reply 503 ''Service unavailable - zkVerify session not initialized'') \<and>
   snd (verify_score ''proof'' [''signal''] test_vk Testnet 1 ''a'' srv0) = srv0 \<and>
   \<not> isShuttingDown (new_queue test_config) \<and> \<not> isProcessing (new_queue test_config) \<and>
   queue (new_queue test_config) = [] \<and>
   workers (snd (submit ''proof'' [''signal''] test_vk Testnet None 1 ''a'' (new_queue test_config))) =
     [Awaiting (submitted_item ''proof'' [''signal''] test_vk Testnet 1 ''a'' test_config)] \<and>
   submitProofTransaction srv0 (Inr test_result) = Inl session_unavailable \<and>
   0 < length (workers one_submitted) \<and> workers one_submitted ! 0 = Awaiting first_item \<and>
   totalFailed (attempt_rejects 0 session_unavailable one_submitted) = 1"
proof -
  have h: "\<not> connected srv0" "validateProofAndSignals ''proof'' [''signal''] = None"
    "transactionQueue srv0 \<noteq> None"
    "\<not> isShuttingDown (new_queue test_config)" "\<not> isProcessing (new_queue test_config)"
    "queue (new_queue test_config) = []" "workers (new_queue test_config) = []"
    "config (new_queue test_config) = test_config"
    "0 < length (workers one_submitted)" "workers one_submitted ! 0 = Awaiting first_item"
    "totalFailed one_submitted = 0"
    by (simp_all add: srv0_def connected_def validateProofAndSignals_def new_queue_def
        one_submitted_eq)
  have v: "fst (verify_score ''proof'' [''signal''] test_vk Testnet 1 ''a'' srv0) =
     Inl (Reply 503 ''Service unavailable - zkVerify session not initialized'')"
    by (simp add: verify_score_def srv0_def connected_def validateProofAndSignals_def)
  from not_connected_refused_by_handler_not_by_queue
    [of srv0 "''proof''" "[''signal'']" test_vk Testnet 1 "''a''" "new_queue test_config" None
      "Inr test_result" 0 first_item]
    not_connected_refused_by_handler_not_by_queue
    [of srv0 "''proof''" "[''signal'']" test_vk Testnet 1 "''a''" one_submitted None
      "Inr test_result" 0 first_item]
  show ?thesis using h v by simp
qed

text \<open>
  With no session, the handler refuses a valid request with 503 and enqueues nothing;
  and the queue, handed the same request, starts the attempt although nothing is
  connected: the submitter throws and the promise is rejected.
\<close>

theorem attempt_while_not_connected_counterexample:
  "\<not> connected srv0 \<and>
   fst (verify_score ''proof'' [''signal''] test_vk Testnet 1 ''a'' srv0) =
     Inl (Reply 503 ''Service unavailable - zkVerify session not initialized'') \<and>
   snd (verify_score ''proof'' [''signal''] test_vk Testnet 1 ''a'' srv0) = srv0 \<and>
   workers one_submitted = [Awaiting first_item] \<and>
   emitted one_submitted = [E_enqueued ''tx_1_a'' 1, E_processing ''tx_1_a'' 0] \<and>
   submitProofTransaction srv0 (Inr test_result) = Inl session_unavailable \<and>
   map p_state (promises (attempt_rejects 0 session_unavailable one_submitted)) =
     [Rejected session_unavailable]"
  by (simp add: one_submitted_eq first_item_def srv0_def connected_def verify_score_def
      validateProofAndSignals_def submitProofTransaction_def session_unavailable_def
      attempt_rejects_def resume_loop_def loop_iter_def fire_failed_def settle_def Let_def
      isNonceConflict_def errorMsg_of_def)

end
